theory Spec2Isabelle
  imports Main "HOL-Library.Sublist" "HOL-Library.AList"
begin

section \<open>Values of the program\<close>

text \<open>
  The program is one Python module, \<^verbatim>\<open>streamlit_app.py\<close>: four agents and an
  orchestrator that call a web search and a text generator and read the generator's
  answer as JSON. What the generator answers is not under the program's control, so
  the values the agents handle are arbitrary JSON values. They are modelled as the
  Python objects \<^verbatim>\<open>json.loads\<close> builds: \<^verbatim>\<open>None\<close>, \<^verbatim>\<open>bool\<close>, \<^verbatim>\<open>int\<close>
  (unbounded), \<^verbatim>\<open>str\<close>, \<^verbatim>\<open>list\<close> and \<^verbatim>\<open>dict\<close> with string keys in
  insertion order.

  The model is exact on texts of the code points U+0000 to U+00FF and on values without
  floating-point numbers. Its limits, each at the definition it concerns:
  \<^item> strings are lists of 8-bit characters, read as the code points U+0000 to U+00FF;
    an escape \<^verbatim>\<open>\uXXXX\<close> above U+00FF, which \<^verbatim>\<open>json.loads\<close> decodes, is refused by
    the decoder of the model (\<open>scan_escape\<close>);
  \<^item> a number with a fraction or an exponent is kept as its literal (\<open>JFloat\<close>):
    binary floating point is not modelled. So a float is written as its literal
    (\<open>py_repr\<close>), where Python writes the shortest text of the binary value
    (\<^verbatim>\<open>100.0\<close> for \<^verbatim>\<open>1e2\<close>); and as the key of a dictionary a float is compared
    by its literal (\<open>key_of\<close>), where Python compares the values: \<^verbatim>\<open>1.0\<close> and \<^verbatim>\<open>1\<close>
    are one key in Python and two keys here;
  \<^item> integers are read as Python reads them up to version 3.10: the limit of 4300
    digits, beyond which the later versions raise \<^verbatim>\<open>ValueError\<close>, is not modelled
    (\<open>match_number\<close>).

  The examples below use none of these; a theorem about all values holds of Python
  for the values within these limits.
\<close>

datatype json =
    JNull
  | JBool bool
  | JInt int
  | JFloat string
  | JStr string
  | JArr "json list"
  | JObj "(string \<times> json) list"

text \<open>
  The exceptions the program can meet. \<open>GenerationError\<close> stands for any exception
  (a subclass of \<^verbatim>\<open>Exception\<close>) raised by a collaborator; the others are raised by
  Python itself when a value has the wrong type. The string is the message \<^verbatim>\<open>str(e)\<close>.
\<close>

datatype exn =
    TypeError string
  | ValueError string
  | AttributeError string
  | GenerationError string

fun exn_message :: "exn \<Rightarrow> string" where
  "exn_message (TypeError m) = m"
| "exn_message (ValueError m) = m"
| "exn_message (AttributeError m) = m"
| "exn_message (GenerationError m) = m"

section \<open>Python's string operations\<close>

definition nl :: string where
  "nl = [CHR 0x0A]"

text \<open>\<^verbatim>\<open>str.isspace\<close> on the code points below 256.\<close>

definition py_isspace :: "char \<Rightarrow> bool" where
  "py_isspace c = ((of_char c :: nat) \<in> set [9, 10, 11, 12, 13, 28, 29, 30, 31, 32, 133, 160])"

definition py_strip :: "string \<Rightarrow> string" where
  "py_strip s = rev (dropWhile py_isspace (rev (dropWhile py_isspace s)))"

definition startswith :: "string \<Rightarrow> string \<Rightarrow> bool" where
  "startswith s p = (take (length p) s = p)"

definition endswith :: "string \<Rightarrow> string \<Rightarrow> bool" where
  "endswith s p = (length p \<le> length s \<and> drop (length s - length p) s = p)"

text \<open>\<^verbatim>\<open>s.find(c)\<close> and \<^verbatim>\<open>s.rfind(c)\<close> for a one-character \<open>c\<close>: an index, or -1.\<close>

definition py_find :: "string \<Rightarrow> char \<Rightarrow> int" where
  "py_find s c = (if c \<in> set s then int (length (takeWhile (\<lambda>x. x \<noteq> c) s)) else - 1)"

definition py_rfind :: "string \<Rightarrow> char \<Rightarrow> int" where
  "py_rfind s c =
     (if c \<in> set s then int (length s - 1 - length (takeWhile (\<lambda>x. x \<noteq> c) (rev s))) else - 1)"

text \<open>\<^verbatim>\<open>s[a:b]\<close> for indices that are not negative.\<close>

definition py_slice :: "string \<Rightarrow> int \<Rightarrow> int \<Rightarrow> string" where
  "py_slice s a b = drop (nat a) (take (nat b) s)"

text \<open>\<^verbatim>\<open>needle in haystack\<close> on strings: a contiguous occurrence.\<close>

fun py_in_str :: "string \<Rightarrow> string \<Rightarrow> bool" where
  "py_in_str needle [] = (needle = [])"
| "py_in_str needle (c # cs) = (startswith (c # cs) needle \<or> py_in_str needle cs)"

section \<open>The standard library's JSON decoder\<close>

text \<open>
  \<^verbatim>\<open>json.loads\<close> belongs to Python's standard library, not to the repository. It is
  modelled as the recursive-descent scanner it is: whitespace is space, tab, line feed
  and carriage return; a string ends at the first unescaped quote and may not hold a
  control character; a number is the longest match of
  \<^verbatim>\<open>-?(0|[1-9][0-9]*)(\.[0-9]+)?([eE][-+]?[0-9]+)?\<close>; \<^verbatim>\<open>NaN\<close>, \<^verbatim>\<open>Infinity\<close> and
  \<^verbatim>\<open>-Infinity\<close> are accepted; a repeated key of an object keeps its last value; text
  after the value is an error. \<open>None\<close> is \<^verbatim>\<open>JSONDecodeError\<close>. An escape
  \<^verbatim>\<open>\uXXXX\<close> above U+00FF is outside the 8-bit strings of the model and is refused,
  where Python decodes it; Python's recursion limit is not modelled, nor the limit of
  4300 digits that Python 3.11 and later put on an integer.
\<close>

definition json_ws :: "char \<Rightarrow> bool" where
  "json_ws c = (c \<in> set [CHR 0x20, CHR 0x09, CHR 0x0A, CHR 0x0D])"

definition skip_ws :: "string \<Rightarrow> string" where
  "skip_ws = dropWhile json_ws"

definition is_digit :: "char \<Rightarrow> bool" where
  "is_digit c = (c \<in> set ''0123456789'')"

definition digit_val :: "char \<Rightarrow> nat" where
  "digit_val c = of_char c - 48"

definition nat_of_digits :: "string \<Rightarrow> nat" where
  "nat_of_digits ds = foldl (\<lambda>a c. 10 * a + digit_val c) 0 ds"

definition hex_digit :: "char \<Rightarrow> bool" where
  "hex_digit c = (c \<in> set ''0123456789abcdefABCDEF'')"

definition hex_val :: "char \<Rightarrow> nat" where
  "hex_val c =
     (if is_digit c then digit_val c
      else if c \<in> set ''abcdef'' then of_char c - 87
      else of_char c - 55)"

definition unescape :: "char \<Rightarrow> char option" where
  "unescape e =
     (if e = CHR 0x22 then Some (CHR 0x22)
      else if e = CHR 0x5C then Some (CHR 0x5C)
      else if e = CHR ''/'' then Some (CHR ''/'')
      else if e = CHR ''b'' then Some (CHR 0x08)
      else if e = CHR ''f'' then Some (CHR 0x0C)
      else if e = CHR ''n'' then Some (CHR 0x0A)
      else if e = CHR ''r'' then Some (CHR 0x0D)
      else if e = CHR ''t'' then Some (CHR 0x09)
      else None)"

text \<open>The text after a backslash: the character it stands for, and what follows.\<close>

definition scan_escape :: "string \<Rightarrow> (char \<times> string) option" where
  "scan_escape s =
     (case s of
        [] \<Rightarrow> None
      | e # r \<Rightarrow>
          if e = CHR ''u'' then
            (let h = take 4 r; n = foldl (\<lambda>a c. 16 * a + hex_val c) 0 h
             in if length h = 4 \<and> list_all hex_digit h \<and> n < 256
                then Some (char_of n, drop 4 r)
                else None)
          else
            (case unescape e of
               None \<Rightarrow> None
             | Some ch \<Rightarrow> Some (ch, r)))"

lemma scan_escape_shorter:
  "scan_escape s = Some (ch, r) \<Longrightarrow> length r < length s"
  unfolding scan_escape_def
  by (cases s) (auto simp: Let_def split: if_splits option.splits)

definition consc :: "char \<Rightarrow> (string \<times> string) option \<Rightarrow> (string \<times> string) option" where
  "consc c r = (case r of None \<Rightarrow> None | Some (str, rest) \<Rightarrow> Some (c # str, rest))"

text \<open>The text after an opening quote: the string's characters, and what follows the
  closing quote.\<close>

function scan_string :: "string \<Rightarrow> (string \<times> string) option" where
  "scan_string [] = None"
| "scan_string (c # cs) =
     (if c = CHR 0x22 then Some ([], cs)
      else if c = CHR 0x5C then
        (case scan_escape cs of
           None \<Rightarrow> None
         | Some (ch, r) \<Rightarrow> consc ch (scan_string r))
      else if (of_char c :: nat) < 32 then None
      else consc c (scan_string cs))"
  by pat_completeness auto

termination
  by (relation "measure length") (auto dest: scan_escape_shorter)

lemma scan_string_shorter:
  "scan_string s = Some (str, rest) \<Longrightarrow> length rest < length s"
proof (induction s arbitrary: str rest rule: scan_string.induct)
  case 1
  then show ?case by simp
next
  case (2 c cs)
  show ?case
  proof (cases "c = CHR 0x22")
    case True
    with 2(3) show ?thesis by simp
  next
    case nq: False
    show ?thesis
    proof (cases "c = CHR 0x5C")
      case True
      with nq 2(3) obtain ch r str' where
        e: "scan_escape cs = Some (ch, r)" and s: "scan_string r = Some (str', rest)"
        by (auto simp: consc_def split: option.splits)
      from 2(1) [OF nq True e refl s] scan_escape_shorter [OF e] show ?thesis by simp
    next
      case False
      with nq 2(3) obtain str' where
        c: "\<not> (of_char c :: nat) < 32" and s: "scan_string cs = Some (str', rest)"
        by (auto simp: consc_def split: option.splits if_splits)
      from 2(2) [OF nq False c s] show ?thesis by simp
    qed
  qed
qed

definition scan_int :: "string \<Rightarrow> (string \<times> string) option" where
  "scan_int s =
     (case s of
        [] \<Rightarrow> None
      | d # r \<Rightarrow>
          if d = CHR ''0'' then Some ([d], r)
          else if is_digit d then Some (d # takeWhile is_digit r, dropWhile is_digit r)
          else None)"

definition scan_frac :: "string \<Rightarrow> string \<times> string" where
  "scan_frac s =
     (case s of
        [] \<Rightarrow> ([], s)
      | d # r \<Rightarrow>
          if d = CHR ''.'' \<and> takeWhile is_digit r \<noteq> []
          then (d # takeWhile is_digit r, dropWhile is_digit r)
          else ([], s))"

definition scan_exp :: "string \<Rightarrow> string \<times> string" where
  "scan_exp s =
     (case s of
        [] \<Rightarrow> ([], s)
      | e # r \<Rightarrow>
          if e = CHR ''e'' \<or> e = CHR ''E'' then
            (let (sign, r') =
               (case r of
                  [] \<Rightarrow> ([], r)
                | g # r'' \<Rightarrow> if g = CHR ''+'' \<or> g = CHR ''-'' then ([g], r'') else ([], r))
             in if takeWhile is_digit r' \<noteq> []
                then (e # sign @ takeWhile is_digit r', dropWhile is_digit r')
                else ([], s))
          else ([], s))"

text \<open>A number: an \<^verbatim>\<open>int\<close> when it has neither fraction nor exponent, of any number
  of digits (Python 3.11 and later raise \<^verbatim>\<open>ValueError\<close> beyond 4300 digits); a float,
  kept as its literal, otherwise.\<close>

definition match_number :: "string \<Rightarrow> (json \<times> string) option" where
  "match_number s =
     (let (sign, s1) =
        (case s of [] \<Rightarrow> ([], s) | c # r \<Rightarrow> if c = CHR ''-'' then ([c], r) else ([], s))
      in case scan_int s1 of
           None \<Rightarrow> None
         | Some (integer, s2) \<Rightarrow>
             (let (frac, s3) = scan_frac s2; (exp, s4) = scan_exp s3
              in if frac = [] \<and> exp = []
                 then Some (JInt (if sign = [] then int (nat_of_digits integer)
                                  else - int (nat_of_digits integer)), s4)
                 else Some (JFloat (sign @ integer @ frac @ exp), s4)))"

definition scan_constant :: "string \<Rightarrow> (json \<times> string) option" where
  "scan_constant s =
     (if take 3 s = ''NaN'' then Some (JFloat ''NaN'', drop 3 s)
      else if take 8 s = ''Infinity'' then Some (JFloat ''Infinity'', drop 8 s)
      else if take 9 s = ''-Infinity'' then Some (JFloat ''-Infinity'', drop 9 s)
      else None)"

text \<open>Every value that is neither an object nor an array.\<close>

definition scan_atom :: "string \<Rightarrow> (json \<times> string) option" where
  "scan_atom s =
     (case s of
        [] \<Rightarrow> None
      | c # cs \<Rightarrow>
          if c = CHR 0x22 then
            (case scan_string cs of
               None \<Rightarrow> None
             | Some (str, rest) \<Rightarrow> Some (JStr str, rest))
          else if take 4 s = ''null'' then Some (JNull, drop 4 s)
          else if take 4 s = ''true'' then Some (JBool True, drop 4 s)
          else if take 5 s = ''false'' then Some (JBool False, drop 5 s)
          else (case match_number s of
                  Some r \<Rightarrow> Some r
                | None \<Rightarrow> scan_constant s))"

text \<open>A key of an object with its colon: the key, and the text at the value.\<close>

definition scan_key :: "string \<Rightarrow> (string \<times> string) option" where
  "scan_key s =
     (case s of
        [] \<Rightarrow> None
      | c # cs \<Rightarrow>
          if c \<noteq> CHR 0x22 then None
          else
            (case scan_string cs of
               None \<Rightarrow> None
             | Some (key, r1) \<Rightarrow>
                 (case skip_ws r1 of
                    [] \<Rightarrow> None
                  | d # r2 \<Rightarrow> if d = CHR '':'' then Some (key, skip_ws r2) else None)))"

text \<open>What follows a value inside brackets: the closing bracket, or a comma and the
  text at the next value.\<close>

datatype delim = Close string | Comma string | Bad

definition scan_delim :: "char \<Rightarrow> string \<Rightarrow> delim" where
  "scan_delim close s =
     (case skip_ws s of
        [] \<Rightarrow> Bad
      | d # r \<Rightarrow> if d = close then Close r else if d = CHR '','' then Comma (skip_ws r) else Bad)"

text \<open>\<^verbatim>\<open>dict(pairs)\<close>: a later pair with the same key replaces the value.\<close>

definition dict_of_pairs :: "(string \<times> json) list \<Rightarrow> (string \<times> json) list" where
  "dict_of_pairs pairs = foldl (\<lambda>d (k, v). AList.update k v d) [] pairs"

lemma skip_ws_length: "length (skip_ws s) \<le> length s"
  by (simp add: skip_ws_def length_dropWhile_le)

text \<open>
  The three mutually recursive scanners. Each recursive call is on a shorter text; the
  tests \<open>length _ < length s\<close> say so to the termination proof and never fail
  (\<open>parse_value_shorter\<close>, \<open>parse_elements_unguarded\<close> and \<open>parse_members_unguarded\<close>
  below).
\<close>

function parse_value :: "string \<Rightarrow> (json \<times> string) option"
  and parse_elements :: "string \<Rightarrow> (json list \<times> string) option"
  and parse_members :: "string \<Rightarrow> ((string \<times> json) list \<times> string) option"
where
  "parse_value [] = None"
| "parse_value (c # cs) =
     (if c = CHR ''{'' then
        (case scan_delim (CHR ''}'') cs of
           Close r \<Rightarrow> Some (JObj [], r)
         | _ \<Rightarrow>
           (case parse_members (skip_ws cs) of
              None \<Rightarrow> None
            | Some (pairs, rest) \<Rightarrow> Some (JObj (dict_of_pairs pairs), rest)))
      else if c = CHR ''['' then
        (case scan_delim (CHR '']'') cs of
           Close r \<Rightarrow> Some (JArr [], r)
         | _ \<Rightarrow>
           (case parse_elements (skip_ws cs) of
              None \<Rightarrow> None
            | Some (values, rest) \<Rightarrow> Some (JArr values, rest)))
      else scan_atom (c # cs))"
| "parse_elements s =
     (case parse_value s of
        None \<Rightarrow> None
      | Some (v, r) \<Rightarrow>
          (case scan_delim (CHR '']'') r of
             Close rest \<Rightarrow> Some ([v], rest)
           | Comma r2 \<Rightarrow>
               if length r2 < length s then
                 (case parse_elements r2 of
                    None \<Rightarrow> None
                  | Some (vs, rest) \<Rightarrow> Some (v # vs, rest))
               else None
           | Bad \<Rightarrow> None))"
| "parse_members s =
     (case scan_key s of
        None \<Rightarrow> None
      | Some (key, r) \<Rightarrow>
          if length r < length s then
            (case parse_value r of
               None \<Rightarrow> None
             | Some (v, r1) \<Rightarrow>
                 (case scan_delim (CHR ''}'') r1 of
                    Close rest \<Rightarrow> Some ([(key, v)], rest)
                  | Comma r2 \<Rightarrow>
                      if length r2 < length s then
                        (case parse_members r2 of
                           None \<Rightarrow> None
                         | Some (pairs, rest) \<Rightarrow> Some ((key, v) # pairs, rest))
                      else None
                  | Bad \<Rightarrow> None))
          else None)"
  by pat_completeness auto

termination
  by (relation "measure (\<lambda>x. case x of
          Inl s \<Rightarrow> 2 * length s
        | Inr (Inl s) \<Rightarrow> 2 * length s + 1
        | Inr (Inr s) \<Rightarrow> 2 * length s + 1)")
     (use skip_ws_length in \<open>auto simp: le_imp_less_Suc\<close>)

declare parse_value.simps [simp del] parse_elements.simps [simp del] parse_members.simps [simp del]

text \<open>\<^verbatim>\<open>json.loads(s)\<close>: the value, or \<open>None\<close> for \<^verbatim>\<open>JSONDecodeError\<close>.\<close>

definition json_loads :: "string \<Rightarrow> json option" where
  "json_loads s =
     (case parse_value (skip_ws s) of
        None \<Rightarrow> None
      | Some (v, rest) \<Rightarrow> if skip_ws rest = [] then Some v else None)"

section \<open>Formatting values\<close>

definition digit_char :: "nat \<Rightarrow> char" where
  "digit_char d = ''0123456789'' ! d"

fun digits :: "nat \<Rightarrow> string" where
  "digits n = (if n < 10 then [digit_char n] else digits (n div 10) @ [digit_char (n mod 10)])"

declare digits.simps [simp del]

text \<open>\<^verbatim>\<open>str(i)\<close> for an \<^verbatim>\<open>int\<close>.\<close>

definition str_int :: "int \<Rightarrow> string" where
  "str_int i = (if i < 0 then CHR ''-'' # digits (nat (- i)) else digits (nat i))"

definition hex_char :: "nat \<Rightarrow> char" where
  "hex_char d = ''0123456789abcdef'' ! d"

definition hex2 :: "nat \<Rightarrow> string" where
  "hex2 n = [hex_char (n div 16 mod 16), hex_char (n mod 16)]"

text \<open>\<^verbatim>\<open>repr(s)\<close> for a \<^verbatim>\<open>str\<close>: single quotes unless the string holds a single quote
  and no double quote; a character that is not printable is written \<^verbatim>\<open>\xNN\<close>.\<close>

definition repr_char :: "char \<Rightarrow> char \<Rightarrow> string" where
  "repr_char q c =
     (let n = (of_char c :: nat) in
      if c = q \<or> c = CHR 0x5C then [CHR 0x5C, c]
      else if c = CHR 0x09 then [CHR 0x5C, CHR ''t'']
      else if c = CHR 0x0A then [CHR 0x5C, CHR ''n'']
      else if c = CHR 0x0D then [CHR 0x5C, CHR ''r'']
      else if n < 32 \<or> n = 127 \<or> (128 \<le> n \<and> n \<le> 160) \<or> n = 173
        then [CHR 0x5C, CHR ''x''] @ hex2 n
      else [c])"

definition repr_str :: "string \<Rightarrow> string" where
  "repr_str s =
     (let q = (if CHR 0x27 \<in> set s \<and> CHR 0x22 \<notin> set s then CHR 0x22 else CHR 0x27)
      in [q] @ concat (map (repr_char q) s) @ [q])"

text \<open>\<^verbatim>\<open>sep.join(parts)\<close> for parts that are strings.\<close>

fun join :: "string \<Rightarrow> string list \<Rightarrow> string" where
  "join sep [] = []"
| "join sep [x] = x"
| "join sep (x # y # ys) = x @ sep @ join sep (y # ys)"

text \<open>\<^verbatim>\<open>repr(v)\<close>, and \<^verbatim>\<open>str(v)\<close> as an f-string writes a value: a string as it is, any
  other value as its \<^verbatim>\<open>repr\<close>. A float is written as the literal it was read from,
  which is Python's text only for a literal in Python's own form (\<^verbatim>\<open>1.5\<close>, not
  \<^verbatim>\<open>1e2\<close>).\<close>

fun py_repr :: "json \<Rightarrow> string" where
  "py_repr JNull = ''None''"
| "py_repr (JBool b) = (if b then ''True'' else ''False'')"
| "py_repr (JInt i) = str_int i"
| "py_repr (JFloat lit) = lit"
| "py_repr (JStr s) = repr_str s"
| "py_repr (JArr xs) = ''['' @ join '', '' (map py_repr xs) @ '']''"
| "py_repr (JObj kvs) =
     ''{'' @ join '', '' (map (\<lambda>kv. repr_str (fst kv) @ '': '' @ py_repr (snd kv)) kvs) @ ''}''"

definition py_str :: "json \<Rightarrow> string" where
  "py_str v = (case v of JStr s \<Rightarrow> s | _ \<Rightarrow> py_repr v)"

text \<open>The name of a value's type, as error messages print it.\<close>

fun type_name :: "json \<Rightarrow> string" where
  "type_name JNull = ''NoneType''"
| "type_name (JBool _) = ''bool''"
| "type_name (JInt _) = ''int''"
| "type_name (JFloat _) = ''float''"
| "type_name (JStr _) = ''str''"
| "type_name (JArr _) = ''list''"
| "type_name (JObj _) = ''dict''"

section \<open>The standard library's JSON encoder\<close>

text \<open>
  \<^verbatim>\<open>json.dumps(v)\<close> with its default options, the serialization the specification
  speaks of: \<^verbatim>\<open>", "\<close> between items, \<^verbatim>\<open>": "\<close> after a key, and every character of a
  string outside the printable ASCII range escaped.
\<close>

definition escape_char :: "char \<Rightarrow> string" where
  "escape_char c =
     (let n = (of_char c :: nat) in
      if c = CHR 0x22 then [CHR 0x5C, CHR 0x22]
      else if c = CHR 0x5C then [CHR 0x5C, CHR 0x5C]
      else if c = CHR 0x0A then [CHR 0x5C, CHR ''n'']
      else if c = CHR 0x0D then [CHR 0x5C, CHR ''r'']
      else if c = CHR 0x09 then [CHR 0x5C, CHR ''t'']
      else if c = CHR 0x08 then [CHR 0x5C, CHR ''b'']
      else if c = CHR 0x0C then [CHR 0x5C, CHR ''f'']
      else if n < 32 \<or> 126 < n then [CHR 0x5C, CHR ''u'', CHR ''0'', CHR ''0''] @ hex2 n
      else [c])"

definition dumps_str :: "string \<Rightarrow> string" where
  "dumps_str s = [CHR 0x22] @ concat (map escape_char s) @ [CHR 0x22]"

fun json_dumps :: "json \<Rightarrow> string" where
  "json_dumps JNull = ''null''"
| "json_dumps (JBool b) = (if b then ''true'' else ''false'')"
| "json_dumps (JInt i) = str_int i"
| "json_dumps (JFloat lit) = lit"
| "json_dumps (JStr s) = dumps_str s"
| "json_dumps (JArr xs) = ''['' @ join '', '' (map json_dumps xs) @ '']''"
| "json_dumps (JObj kvs) =
     ''{'' @ join '', '' (map (\<lambda>kv. dumps_str (fst kv) @ '': '' @ json_dumps (snd kv)) kvs) @ ''}''"

section \<open>Dictionaries\<close>

text \<open>
  A Python dictionary built at run time: an association list in insertion order. Its
  keys are the hashable JSON values, kept up to Python's equality of keys (\<^verbatim>\<open>True\<close>
  and \<^verbatim>\<open>1\<close> are one key), but for floats: a float is a key by its literal, so
  that \<^verbatim>\<open>1.0\<close> and \<^verbatim>\<open>1\<close>, one key in Python, are two keys here. A list or a
  dictionary is not hashable. Storing under a
  key (\<^verbatim>\<open>d[k] = v\<close>) is \<open>AList.update\<close>: the value is replaced in place, or the pair
  is added at the end. \<^verbatim>\<open>d.get(k)\<close> is \<open>map_of d k\<close>.
\<close>

datatype pykey = KNone | KNum int | KFloat string | KStr string

fun key_of :: "json \<Rightarrow> pykey option" where
  "key_of JNull = Some KNone"
| "key_of (JBool b) = Some (KNum (if b then 1 else 0))"
| "key_of (JInt i) = Some (KNum i)"
| "key_of (JFloat lit) = Some (KFloat lit)"
| "key_of (JStr s) = Some (KStr s)"
| "key_of (JArr _) = None"
| "key_of (JObj _) = None"

type_synonym pydict = "(pykey \<times> json) list"

definition unhashable :: "json \<Rightarrow> exn" where
  "unhashable v = TypeError (''unhashable type: '' @ [CHR 0x27] @ type_name v @ [CHR 0x27])"

definition bad_length :: "nat \<Rightarrow> nat \<Rightarrow> exn" where
  "bad_length i n =
     ValueError (''dictionary update sequence element #'' @ digits i @ '' has length '' @
                 digits n @ ''; 2 is required'')"

text \<open>
  One element of \<^verbatim>\<open>d.update(iterable)\<close>: it must itself be a sequence of length two,
  key and value. A string of two characters and a dictionary of two keys are such
  sequences.
\<close>

definition update_pair :: "nat \<Rightarrow> json \<Rightarrow> exn + pykey \<times> json" where
  "update_pair i e =
     (case e of
        JArr xs \<Rightarrow>
          (case xs of
             [k, v] \<Rightarrow> (case key_of k of None \<Rightarrow> Inl (unhashable k) | Some k' \<Rightarrow> Inr (k', v))
           | _ \<Rightarrow> Inl (bad_length i (length xs)))
      | JStr s \<Rightarrow>
          (case s of
             [a, b] \<Rightarrow> Inr (KStr [a], JStr [b])
           | _ \<Rightarrow> Inl (bad_length i (length s)))
      | JObj kvs \<Rightarrow>
          (case kvs of
             [p, q] \<Rightarrow> Inr (KStr (fst p), JStr (fst q))
           | _ \<Rightarrow> Inl (bad_length i (length kvs)))
      | _ \<Rightarrow>
          Inl (TypeError (''cannot convert dictionary update sequence element #'' @ digits i @
                          '' to a sequence'')))"

text \<open>The pairs are stored one by one: those before a bad element stay stored.\<close>

fun update_pairs :: "nat \<Rightarrow> json list \<Rightarrow> pydict \<Rightarrow> exn option \<times> pydict" where
  "update_pairs i [] d = (None, d)"
| "update_pairs i (e # es) d =
     (case update_pair i e of
        Inl ex \<Rightarrow> (Some ex, d)
      | Inr (k, v) \<Rightarrow> update_pairs (Suc i) es (AList.update k v d))"

definition not_iterable :: "json \<Rightarrow> exn" where
  "not_iterable v = TypeError ([CHR 0x27] @ type_name v @ [CHR 0x27] @ '' object is not iterable'')"

text \<open>
  \<^verbatim>\<open>d.update(x)\<close> for any JSON value \<open>x\<close>: the dictionary after the call, and the
  exception when the call raised.
\<close>

definition dict_update :: "pydict \<Rightarrow> json \<Rightarrow> exn option \<times> pydict" where
  "dict_update d x =
     (case x of
        JObj kvs \<Rightarrow> (None, fold (\<lambda>kv. AList.update (KStr (fst kv)) (snd kv)) kvs d)
      | JArr es \<Rightarrow> update_pairs 0 es d
      | JStr s \<Rightarrow> (if s = [] then (None, d) else (Some (bad_length 0 1), d))
      | _ \<Rightarrow> (Some (not_iterable x), d))"

section \<open>The collaborators\<close>

text \<open>
  The search service and the text generator are outside the program. Each is any
  function of its argument and of the state of the world \<open>'w\<close>, which it may change,
  so that two calls with one argument may answer differently. The run of the program
  carries the world and the list of the calls made so far.

  An item of a search result has a title, a snippet and a link, each a string or
  absent. The generator returns a text or raises.
\<close>

record search_item =
  item_title :: "string option"
  item_snippet :: "string option"
  item_link :: "string option"

datatype call = Search string nat | Generate string

record 'w run =
  world :: 'w
  calls :: "call list"

type_synonym 'w search_service = "string \<Rightarrow> nat \<Rightarrow> 'w \<Rightarrow> (exn + search_item list option) \<times> 'w"

type_synonym 'w search_tool = "string \<Rightarrow> nat \<Rightarrow> 'w \<Rightarrow> search_item list \<times> 'w"

type_synonym 'w llm_model = "string \<Rightarrow> 'w \<Rightarrow> (exn + string) \<times> 'w"

text \<open>
  \<^verbatim>\<open>perform_GoogleSearch\<close> (lines 52 to 63): the items of the service's answer, the empty
  list when the answer has none or the service raised.
\<close>

definition perform_GoogleSearch :: "'w search_service \<Rightarrow> 'w search_tool" where
  "perform_GoogleSearch service query num_results w =
     (case service query num_results w of
        (Inl e, w') \<Rightarrow> ([], w')
      | (Inr None, w') \<Rightarrow> ([], w')
      | (Inr (Some items), w') \<Rightarrow> (items, w'))"

text \<open>A call of \<^verbatim>\<open>search_tool(query, num_results)\<close> and of
  \<^verbatim>\<open>llm_model.generate_content(prompt).text\<close>, each recorded.\<close>

definition call_search ::
  "'w search_tool \<Rightarrow> string \<Rightarrow> nat \<Rightarrow> 'w run \<Rightarrow> search_item list \<times> 'w run" where
  "call_search search_tool query num_results s =
     (case search_tool query num_results (world s) of
        (results, w') \<Rightarrow> (results, \<lparr>world = w', calls = calls s @ [Search query num_results]\<rparr>))"

definition generate_content ::
  "'w llm_model \<Rightarrow> string \<Rightarrow> 'w run \<Rightarrow> (exn + string) \<times> 'w run" where
  "generate_content llm_model prompt s =
     (case llm_model prompt (world s) of
        (response, w') \<Rightarrow> (response, \<lparr>world = w', calls = calls s @ [Generate prompt]\<rparr>))"

text \<open>The text an agent makes of one item (lines 91 and 188).\<close>

definition format_item :: "search_item \<Rightarrow> string" where
  "format_item item =
     ''Title: '' @ (case item_title item of None \<Rightarrow> ''N/A'' | Some t \<Rightarrow> t) @ nl @
     ''Snippet: '' @ (case item_snippet item of None \<Rightarrow> ''N/A'' | Some t \<Rightarrow> t) @ nl @
     ''URL: '' @ (case item_link item of None \<Rightarrow> ''#'' | Some t \<Rightarrow> t) @ nl @ nl"

definition item_json :: "search_item \<Rightarrow> json" where
  "item_json item =
     JObj ((case item_title item of None \<Rightarrow> [] | Some t \<Rightarrow> [(''title'', JStr t)]) @
           (case item_snippet item of None \<Rightarrow> [] | Some t \<Rightarrow> [(''snippet'', JStr t)]) @
           (case item_link item of None \<Rightarrow> [] | Some t \<Rightarrow> [(''link'', JStr t)]))"

section \<open>The research agent\<close>

text \<open>The four queries of \<^verbatim>\<open>research_agent\<close> (lines 77 to 82).\<close>

definition research_queries :: "string \<Rightarrow> string list" where
  "research_queries company_or_industry_name =
     [company_or_industry_name @ '' industry sector'',
      company_or_industry_name @ '' key products and services'',
      company_or_industry_name @ '' strategic priorities focus areas'',
      company_or_industry_name @ '' company profile'']"

text \<open>
  The loop of lines 85 to 91: every query is searched with the default of five results;
  the items found are collected, and their texts are appended to \<open>all_search_text\<close>.
\<close>

fun research_search ::
  "'w search_tool \<Rightarrow> string list \<Rightarrow> search_item list \<times> string \<Rightarrow> 'w run \<Rightarrow>
   (search_item list \<times> string) \<times> 'w run" where
  "research_search search_tool [] acc s = (acc, s)"
| "research_search search_tool (query # queries) acc s =
     (case call_search search_tool query 5 s of
        (results, s') \<Rightarrow>
          research_search search_tool queries
            (fst acc @ results, snd acc @ concat (map format_item results)) s')"

text \<open>The prompt of lines 97 to 112; the text after the placeholder on its line is part
  of the string.\<close>

definition research_prompt :: "string \<Rightarrow> string \<Rightarrow> string" where
  "research_prompt company_or_industry_name all_search_text =
     nl @
     ''    Analyze the following text snippets from web searches about \"'' @ company_or_industry_name @ ''\".'' @ nl @
     ''    Identify and extract the following information:'' @ nl @
     ''    1. The main industry sector (e.g., Automotive, Finance, Healthcare).'' @ nl @
     ''    2. The specific segment within that industry (e.g., Commercial Banking, Oncology, E-commerce).'' @ nl @
     ''    3. Key products, services, or offerings (as a list of strings).'' @ nl @
     ''    4. Strategic focus areas or priorities (as a list of strings, e.g., improving efficiency, customer experience, expansion).'' @ nl @
     nl @
     ''    Provide the output *only* as a structured JSON format with the keys: \"industry\", \"segment\", \"offerings\", \"strategic_focus\".'' @ nl @
     ''    If information for a key is not found, use \"N/A\" or an empty list [] where appropriate (e.g., offerings: []). Do not include any other text, explanation, or markdown formatting (like ```json) outside the JSON object.'' @ nl @
     nl @
     ''    --- Text Snippets ---'' @ nl @
     ''    '' @ take 7000 all_search_text @ '' # Limit text length slightly more conservatively for safety'' @ nl @
     nl @
     ''    --- JSON Output ---'' @ nl @
     ''    ''"

text \<open>The record the agent starts from (lines 68 to 75).\<close>

definition initial_research_data :: "string \<Rightarrow> search_item list \<Rightarrow> pydict" where
  "initial_research_data company_or_industry_name results =
     [(KStr ''input_name'', JStr company_or_industry_name),
      (KStr ''industry'', JNull),
      (KStr ''segment'', JNull),
      (KStr ''offerings'', JNull),
      (KStr ''strategic_focus'', JNull),
      (KStr ''search_results'', JArr (map item_json results))]"

text \<open>The four assignments of a failure marker (lines 141 to 144 and 148 to 151).\<close>

definition set_markers :: "string \<Rightarrow> pydict \<Rightarrow> pydict" where
  "set_markers marker research_data =
     AList.update (KStr ''strategic_focus'') (JArr [JStr marker])
       (AList.update (KStr ''offerings'') (JArr [JStr marker])
         (AList.update (KStr ''segment'') (JStr marker)
           (AList.update (KStr ''industry'') (JStr marker) research_data)))"

text \<open>Removing a Markdown fence (lines 129 to 132, and 242 to 245, 366 to 369).\<close>

definition clean_fences :: "string \<Rightarrow> string" where
  "clean_fences str =
     (let c0 = py_strip str;
          c1 = (if startswith c0 ''```json'' then drop 7 c0 else c0);
          c2 = (if endswith c1 ''```'' then take (length c1 - 3) c1 else c1)
      in py_strip c2)"

text \<open>
  \<^verbatim>\<open>research_data.update(extracted_info)\<close> inside the outer \<^verbatim>\<open>try\<close>: an exception of
  the update is caught by \<^verbatim>\<open>except Exception\<close> (line 146), which overwrites the four
  fields with \<^verbatim>\<open>f"Error: {e}"\<close>.
\<close>

definition merge_extracted :: "pydict \<Rightarrow> json \<Rightarrow> pydict" where
  "merge_extracted research_data extracted_info =
     (case dict_update research_data extracted_info of
        (None, research_data') \<Rightarrow> research_data'
      | (Some e, research_data') \<Rightarrow> set_markers (''Error: '' @ exn_message e) research_data')"

text \<open>
  Lines 113 to 151: the generator is called; its text is parsed as it is, and once more
  with the fence removed; a value that parses is merged into the record; when neither
  parse succeeds the four fields get the parsing marker; when the generator raises
  they get \<^verbatim>\<open>f"Error: {e}"\<close>.
\<close>

definition research_extract ::
  "'w llm_model \<Rightarrow> string \<Rightarrow> pydict \<Rightarrow> 'w run \<Rightarrow> pydict \<times> 'w run" where
  "research_extract llm_model prompt research_data s =
     (case generate_content llm_model prompt s of
        (Inl e, s') \<Rightarrow> (set_markers (''Error: '' @ exn_message e) research_data, s')
      | (Inr text, s') \<Rightarrow>
          (let extracted_info_str = py_strip text in
           case json_loads extracted_info_str of
             Some extracted_info \<Rightarrow> (merge_extracted research_data extracted_info, s')
           | None \<Rightarrow>
               (case json_loads (clean_fences extracted_info_str) of
                  Some extracted_info \<Rightarrow> (merge_extracted research_data extracted_info, s')
                | None \<Rightarrow>
                    (set_markers ''Extraction Failed (Parsing Error)'' research_data, s'))))"

text \<open>Lines 155 and 156: an \<open>industry\<close> that is \<^verbatim>\<open>None\<close> becomes \<^verbatim>\<open>"N/A"\<close>.\<close>

definition default_industry :: "pydict \<Rightarrow> pydict" where
  "default_industry research_data =
     (if map_of research_data (KStr ''industry'') = None
         \<or> map_of research_data (KStr ''industry'') = Some JNull
      then AList.update (KStr ''industry'') (JStr ''N/A'') research_data
      else research_data)"

text \<open>\<^verbatim>\<open>research_agent\<close> (lines 65 to 158). It returns \<^verbatim>\<open>None\<close> or the record, and never
  raises.\<close>

definition research_agent ::
  "string \<Rightarrow> 'w search_tool \<Rightarrow> 'w llm_model \<Rightarrow> 'w run \<Rightarrow> pydict option \<times> 'w run" where
  "research_agent company_or_industry_name search_tool llm_model s =
     (case research_search search_tool (research_queries company_or_industry_name) ([], []) s of
        ((results, all_search_text), s1) \<Rightarrow>
          if all_search_text = [] then (None, s1)
          else
            (case research_extract llm_model
                    (research_prompt company_or_industry_name all_search_text)
                    (initial_research_data company_or_industry_name results) s1 of
               (research_data, s2) \<Rightarrow> (Some (default_industry research_data), s2)))"

section \<open>The gate on the research\<close>

text \<open>\<^verbatim>\<open>"Error" in v\<close>: a substring of a string, an element of a list, a key of a
  dictionary; any other value is not iterable.\<close>

definition contains_Error :: "json \<Rightarrow> exn + bool" where
  "contains_Error v =
     (case v of
        JStr s \<Rightarrow> Inr (py_in_str ''Error'' s)
      | JArr xs \<Rightarrow> Inr (JStr ''Error'' \<in> set xs)
      | JObj kvs \<Rightarrow> Inr (''Error'' \<in> fst ` set kvs)
      | _ \<Rightarrow> Inl (TypeError (''argument of type '' @ [CHR 0x27] @ type_name v @ [CHR 0x27] @
                               '' is not iterable'')))"

text \<open>
  The condition written three times in the source (lines 162, 315 and 418):
  \<^verbatim>\<open>not research_data or research_data.get("industry") in [None, "N/A"] or
  "Error" in research_data.get("industry", "")\<close>. The disjunction stops at its first
  true part.
\<close>

definition insufficient :: "pydict option \<Rightarrow> exn + bool" where
  "insufficient research_data =
     (case research_data of
        None \<Rightarrow> Inr True
      | Some d \<Rightarrow>
          if d = [] then Inr True
          else
            (case map_of d (KStr ''industry'') of
               None \<Rightarrow> Inr True
             | Some industry \<Rightarrow>
                 if industry = JNull \<or> industry = JStr ''N/A'' then Inr True
                 else contains_Error industry))"

section \<open>The use case agent\<close>

text \<open>\<^verbatim>\<open>", ".join(xs)\<close> raises \<^verbatim>\<open>TypeError\<close> at the first item that is not a string.\<close>

fun join_items :: "nat \<Rightarrow> json list \<Rightarrow> exn + string list" where
  "join_items i [] = Inr []"
| "join_items i (x # xs) =
     (case x of
        JStr s \<Rightarrow> (case join_items (Suc i) xs of Inl e \<Rightarrow> Inl e | Inr ss \<Rightarrow> Inr (s # ss))
      | _ \<Rightarrow> Inl (TypeError (''sequence item '' @ digits i @ '': expected str instance, '' @
                               type_name x @ '' found'')))"

definition py_join :: "string \<Rightarrow> json list \<Rightarrow> exn + string" where
  "py_join sep xs = (case join_items 0 xs of Inl e \<Rightarrow> Inl e | Inr ss \<Rightarrow> Inr (join sep ss))"

text \<open>
  Lines 168 and 169 (and 322, 323): the field joined with \<^verbatim>\<open>", "\<close> when it is a list
  that is not empty, the default text otherwise.
\<close>

definition joined_field :: "pydict \<Rightarrow> string \<Rightarrow> string \<Rightarrow> exn + string" where
  "joined_field research_data key fallback =
     (case map_of research_data (KStr key) of
        Some (JArr xs) \<Rightarrow> if xs \<noteq> [] then py_join '', '' xs else Inr fallback
      | _ \<Rightarrow> Inr fallback)"

definition get_or :: "pydict \<Rightarrow> string \<Rightarrow> json \<Rightarrow> json" where
  "get_or d key fallback = (case map_of d (KStr key) of None \<Rightarrow> fallback | Some v \<Rightarrow> v)"

definition trend_queries :: "json \<Rightarrow> json \<Rightarrow> string list" where
  "trend_queries industry segment =
     [''AI trends in '' @ py_str industry @ '' sector'',
      ''Generative AI applications '' @ py_str segment,
      ''Machine Learning use cases '' @ py_str industry @ '' operations'',
      py_str industry @ '' companies using AI for customer experience'']"

text \<open>The loop of lines 184 to 188, three results for a query.\<close>

fun trend_search ::
  "'w search_tool \<Rightarrow> string list \<Rightarrow> string \<Rightarrow> 'w run \<Rightarrow> string \<times> 'w run" where
  "trend_search search_tool [] trend_snippets s = (trend_snippets, s)"
| "trend_search search_tool (query # queries) trend_snippets s =
     (case call_search search_tool query 3 s of
        (results, s') \<Rightarrow>
          trend_search search_tool queries (trend_snippets @ concat (map format_item results)) s')"

text \<open>The fixed block of lines 190 to 196.\<close>

definition hypothetical_insights :: "json \<Rightarrow> string" where
  "hypothetical_insights industry =
     nl @
     ''Based on recent reports from McKinsey and Deloitte on digital transformation in the '' @ py_str industry @ '' sector:'' @ nl @
     ''- Companies are seeing significant ROI from AI in supply chain forecasting.'' @ nl @
     ''- GenAI is increasingly used for personalizing customer communication and support.'' @ nl @
     ''- ML models are improving fraud detection rates by over 30%.'' @ nl @
     ''- Automation of routine tasks using AI frees up employees for strategic work.'' @ nl"

text \<open>The prompt of lines 201 to 221.\<close>

definition use_case_prompt ::
  "json \<Rightarrow> json \<Rightarrow> json \<Rightarrow> string \<Rightarrow> string \<Rightarrow> string \<Rightarrow> string" where
  "use_case_prompt company_name industry segment offerings focus_areas trend_snippets =
     nl @
     ''Based on the following research about \"'' @ py_str company_name @ ''\", which is in the \"'' @ py_str industry @ ''\" sector,'' @ nl @
     ''specifically the \"'' @ py_str segment @ ''\" segment, offering products/services like \"'' @ offerings @ ''\",'' @ nl @
     ''and focusing strategically on areas like \"'' @ focus_areas @ ''\".'' @ nl @
     nl @
     ''Also consider the following industry trends and insights regarding AI, ML, and Generative AI:'' @ nl @
     ''--- Industry Trends/Insights ---'' @ nl @
     take 7000 trend_snippets @ '' # Limit trend text'' @ nl @
     nl @
     ''Propose a list of 5-10 relevant AI/ML/GenAI use cases for \"'' @ py_str company_name @ ''\".'' @ nl @
     ''For each use case:'' @ nl @
     ''1. Give it a clear title.'' @ nl @
     ''2. Briefly describe the problem it solves or the opportunity it addresses.'' @ nl @
     ''3. Explain how AI/ML/GenAI is applied.'' @ nl @
     ''4. Mention the potential benefit (e.g., improve process X, enhance customer Y, boost operational efficiency Z).'' @ nl @
     ''5. Briefly mention *why* this use case is relevant to the company/industry context (link to their offerings, focus areas, or industry trends).'' @ nl @
     nl @
     ''Provide the output *only* as a JSON list of objects, where each object has keys: \"title\", \"description\", \"ai_application\", \"potential_benefit\", \"relevance\". Do not include any other text, explanation, or markdown formatting (like ```json) outside the JSON array. If you cannot think of specific relevant use cases based on this information, return an empty JSON array [].'' @ nl @
     nl @
     ''--- JSON Output ---'' @ nl"

text \<open>
  The extraction of a list from the generator's text, written twice in the source
  (lines 231 to 265 and 354 to 389): the text is parsed as it is; when that fails the
  fence is removed and the text from the first \<^verbatim>\<open>[\<close> to the last \<^verbatim>\<open>]\<close> is parsed. A
  value that is not a list, and every failure, give the empty list.
\<close>

definition list_or_empty :: "json \<Rightarrow> json list" where
  "list_or_empty v = (case v of JArr xs \<Rightarrow> xs | _ \<Rightarrow> [])"

definition extract_list :: "string \<Rightarrow> json list" where
  "extract_list str =
     (case json_loads str of
        Some v \<Rightarrow> list_or_empty v
      | None \<Rightarrow>
          (let cleaned = clean_fences str;
               start_index = py_find cleaned (CHR ''['');
               end_index = py_rfind cleaned (CHR '']'')
           in if start_index \<noteq> - 1 \<and> end_index \<noteq> - 1 \<and> end_index > start_index then
                (case json_loads (py_slice cleaned start_index (end_index + 1)) of
                   Some v \<Rightarrow> list_or_empty v
                 | None \<Rightarrow> [])
              else []))"

text \<open>Lines 226 to 269 (and 349 to 394): an exception of the generator gives the empty
  list.\<close>

definition generate_list :: "'w llm_model \<Rightarrow> string \<Rightarrow> 'w run \<Rightarrow> json list \<times> 'w run" where
  "generate_list llm_model prompt s =
     (case generate_content llm_model prompt s of
        (Inl e, s') \<Rightarrow> ([], s')
      | (Inr text, s') \<Rightarrow> (extract_list (py_strip text), s'))"

text \<open>\<^verbatim>\<open>use_case_generation_agent\<close> (lines 160 to 272).\<close>

definition use_case_generation_agent ::
  "pydict option \<Rightarrow> 'w search_tool \<Rightarrow> 'w llm_model \<Rightarrow> 'w run \<Rightarrow> (exn + json list) \<times> 'w run" where
  "use_case_generation_agent research_data search_tool llm_model s =
     (case insufficient research_data of
        Inl e \<Rightarrow> (Inl e, s)
      | Inr True \<Rightarrow> (Inr [], s)
      | Inr False \<Rightarrow>
          (let d = (case research_data of None \<Rightarrow> [] | Some d \<Rightarrow> d);
               industry = get_or d ''industry'' (JStr ''a general industry'');
               segment = get_or d ''segment'' industry
           in case joined_field d ''offerings'' ''various products/services'' of
                Inl e \<Rightarrow> (Inl e, s)
              | Inr offerings \<Rightarrow>
                  (case joined_field d ''strategic_focus''
                          ''improving operations and customer experience'' of
                     Inl e \<Rightarrow> (Inl e, s)
                   | Inr focus_areas \<Rightarrow>
                       (let company_name = get_or d ''input_name'' (JStr ''The company'') in
                        case trend_search search_tool (trend_queries industry segment) [] s of
                          (trend_snippets, s1) \<Rightarrow>
                            (case generate_list llm_model
                                    (use_case_prompt company_name industry segment offerings
                                       focus_areas (trend_snippets @ hypothetical_insights industry))
                                    s1 of
                               (ucs, s2) \<Rightarrow> (Inr ucs, s2))))))"

section \<open>The resource agent\<close>

record resource =
  res_title :: string
  res_link :: string
  res_snippet :: string

type_synonym resource_map = "(pykey \<times> resource list) list"

text \<open>
  Lines 301 to 305: an item is added when its link is present, not empty, and not yet
  the link of an entry of the list.
\<close>

definition resource_of :: "search_item \<Rightarrow> string \<Rightarrow> resource" where
  "resource_of item link =
     \<lparr>res_title = (case item_title item of None \<Rightarrow> ''No Title'' | Some t \<Rightarrow> t),
      res_link = link,
      res_snippet = (case item_snippet item of None \<Rightarrow> ''N/A'' | Some t \<Rightarrow> t)\<rparr>"

definition add_item :: "search_item \<Rightarrow> resource list \<Rightarrow> resource list" where
  "add_item item links =
     (case item_link item of
        None \<Rightarrow> links
      | Some link \<Rightarrow>
          if link \<noteq> [] \<and> link \<notin> set (map res_link links)
          then links @ [resource_of item link]
          else links)"

definition add_items :: "search_item list \<Rightarrow> resource list \<Rightarrow> resource list" where
  "add_items items links = fold add_item items links"

definition queries_for_uc :: "json \<Rightarrow> string list" where
  "queries_for_uc title =
     [py_str title @ '' dataset site:kaggle.com OR site:huggingface.co/datasets OR site:github.com'',
      py_str title @ '' github code OR example site:github.com'']"

text \<open>The loop of lines 299 to 305, two results for a query.\<close>

fun collect_links ::
  "'w search_tool \<Rightarrow> string list \<Rightarrow> resource list \<Rightarrow> 'w run \<Rightarrow> resource list \<times> 'w run" where
  "collect_links search_tool [] links s = (links, s)"
| "collect_links search_tool (query # queries) links s =
     (case call_search search_tool query 2 s of
        (results, s') \<Rightarrow> collect_links search_tool queries (add_items results links) s')"

text \<open>
  The loop of lines 288 to 305. \<^verbatim>\<open>uc.get\<close> needs a dictionary, and the title must be
  hashable to be a key; \<^verbatim>\<open>collected_links[title] = []\<close> starts the list of a title anew.
\<close>

fun collect_use_cases ::
  "'w search_tool \<Rightarrow> json list \<Rightarrow> resource_map \<Rightarrow> 'w run \<Rightarrow> (exn + resource_map) \<times> 'w run" where
  "collect_use_cases search_tool [] collected_links s = (Inr collected_links, s)"
| "collect_use_cases search_tool (uc # ucs) collected_links s =
     (case uc of
        JObj kvs \<Rightarrow>
          (let title = (case map_of kvs ''title'' of None \<Rightarrow> JStr ''Untitled Use Case'' | Some t \<Rightarrow> t)
           in case key_of title of
                None \<Rightarrow> (Inl (unhashable title), s)
              | Some k \<Rightarrow>
                  (case collect_links search_tool (queries_for_uc title) [] s of
                     (links, s') \<Rightarrow>
                       collect_use_cases search_tool ucs (AList.update k links collected_links) s'))
      | _ \<Rightarrow>
          (Inl (AttributeError ([CHR 0x27] @ type_name uc @ [CHR 0x27] @
                                '' object has no attribute '' @ [CHR 0x27] @ ''get'' @ [CHR 0x27])),
           s))"

text \<open>\<^verbatim>\<open>resource_collection_agent\<close> (lines 275 to 310); it does not use \<open>llm_model\<close>.\<close>

definition resource_collection_agent ::
  "json list \<Rightarrow> 'w search_tool \<Rightarrow> 'w llm_model \<Rightarrow> 'w run \<Rightarrow> (exn + resource_map) \<times> 'w run" where
  "resource_collection_agent ucs search_tool llm_model s =
     (if ucs = [] then (Inr [], s) else collect_use_cases search_tool ucs [] s)"

section \<open>The suggestion agent\<close>

text \<open>The prompt of lines 329 to 344.\<close>

definition proposer_prompt :: "json \<Rightarrow> json \<Rightarrow> json \<Rightarrow> string \<Rightarrow> string \<Rightarrow> string" where
  "proposer_prompt company_name industry segment offerings focus_areas =
     nl @
     ''Considering \"'' @ py_str company_name @ ''\" in the \"'' @ py_str industry @ ''\" sector, particularly the \"'' @ py_str segment @ ''\" segment,'' @ nl @
     ''with offerings like \"'' @ offerings @ ''\" and focusing on \"'' @ focus_areas @ ''\".'' @ nl @
     nl @
     ''Propose potential applications for general-purpose Generative AI solutions within this context.'' @ nl @
     ''Think about solutions like:'' @ nl @
     ''- AI-powered internal document search or knowledge base chatbots.'' @ nl @
     ''- Automated report generation or summarization (e.g., market reports, performance summaries).'' @ nl @
     ''- AI-powered customer support chatbots or virtual assistants.'' @ nl @
     ''- Automated content creation (e.g., marketing copy, product descriptions).'' @ nl @
     nl @
     ''Provide the output *only* as a JSON list of objects, where each object has keys: \"title\", \"application\", \"potential_benefit\", \"fit_area\". Do not include any other text, explanation, or markdown formatting (like ```json) outside the JSON array.'' @ nl @
     ''If you cannot think of specific suggestions relevant to this context, return an empty JSON array [].'' @ nl @
     nl @
     ''--- JSON Output ---'' @ nl"

text \<open>The suggestion of lines 399 to 404.\<close>

definition fallback_suggestion :: json where
  "fallback_suggestion =
     JObj [(''title'', JStr ''Generic AI-Powered Chatbot for FAQs''),
           (''application'', JStr ''Implement a chatbot on the company website or internal portal to answer frequently asked questions.''),
           (''potential_benefit'', JStr ''Improve efficiency by automating responses to common queries, free up staff time, provide 24/7 support.''),
           (''fit_area'', JStr ''Customer Service, Internal Operations, HR'')]"

text \<open>\<^verbatim>\<open>optional_genai_proposer_agent\<close> (lines 313 to 409).\<close>

definition optional_genai_proposer_agent ::
  "pydict option \<Rightarrow> 'w llm_model \<Rightarrow> 'w run \<Rightarrow> (exn + json list) \<times> 'w run" where
  "optional_genai_proposer_agent research_data llm_model s =
     (case insufficient research_data of
        Inl e \<Rightarrow> (Inl e, s)
      | Inr True \<Rightarrow> (Inr [], s)
      | Inr False \<Rightarrow>
          (let d = (case research_data of None \<Rightarrow> [] | Some d \<Rightarrow> d);
               industry = get_or d ''industry'' (JStr ''a general industry'');
               segment = get_or d ''segment'' industry
           in case joined_field d ''offerings'' ''various products/services'' of
                Inl e \<Rightarrow> (Inl e, s)
              | Inr offerings \<Rightarrow>
                  (case joined_field d ''strategic_focus''
                          ''improving operations and customer experience'' of
                     Inl e \<Rightarrow> (Inl e, s)
                   | Inr focus_areas \<Rightarrow>
                       (let company_name = get_or d ''input_name'' (JStr ''The company'') in
                        case generate_list llm_model
                               (proposer_prompt company_name industry segment offerings focus_areas)
                               s of
                          (suggestions, s1) \<Rightarrow>
                            (Inr (if suggestions = [] then [fallback_suggestion] else suggestions),
                             s1)))))"

section \<open>The orchestrator\<close>

record proposal =
  use_cases :: "json list"
  resource_links :: resource_map
  genai_suggestions :: "json list"
  research_data :: "pydict option"
  status :: string

text \<open>\<^verbatim>\<open>orchestrator\<close> (lines 412 to 445): an exception of the gate or of an agent is not
  caught and leaves the orchestrator.\<close>

definition orchestrator ::
  "string \<Rightarrow> 'w search_tool \<Rightarrow> 'w llm_model \<Rightarrow> 'w run \<Rightarrow> (exn + proposal) \<times> 'w run" where
  "orchestrator company_or_industry_name search_tool llm_model s =
     (case research_agent company_or_industry_name search_tool llm_model s of
        (research_output, s1) \<Rightarrow>
          (case insufficient research_output of
             Inl e \<Rightarrow> (Inl e, s1)
           | Inr True \<Rightarrow>
               (Inr \<lparr>use_cases = [], resource_links = [], genai_suggestions = [],
                     research_data = research_output, status = ''Failed Research''\<rparr>, s1)
           | Inr False \<Rightarrow>
               (case use_case_generation_agent research_output search_tool llm_model s1 of
                  (Inl e, s2) \<Rightarrow> (Inl e, s2)
                | (Inr ucs, s2) \<Rightarrow>
                    (case resource_collection_agent ucs search_tool llm_model s2 of
                       (Inl e, s3) \<Rightarrow> (Inl e, s3)
                     | (Inr links, s3) \<Rightarrow>
                         (case optional_genai_proposer_agent research_output llm_model s3 of
                            (Inl e, s4) \<Rightarrow> (Inl e, s4)
                          | (Inr suggestions, s4) \<Rightarrow>
                              (Inr \<lparr>use_cases = ucs, resource_links = links,
                                    genai_suggestions = suggestions,
                                    research_data = research_output, status = ''Success''\<rparr>,
                               s4))))))"

section \<open>Facts about the string operations\<close>

lemma startswith_prefix: "startswith s p \<longleftrightarrow> prefix p s"
  by (auto simp: startswith_def prefix_def) (metis append_eq_conv_conj)

text \<open>\<open>py_in_str\<close> is the contiguous occurrence \<open>sublist\<close> of the library.\<close>

lemma py_in_str_sublist: "py_in_str needle hay \<longleftrightarrow> sublist needle hay"
  by (induction hay) (auto simp: startswith_prefix sublist_Cons_right)

section \<open>The scanners consume their input\<close>

lemma scan_int_shorter: "scan_int s = Some (ds, r) \<Longrightarrow> length r < length s"
  by (cases s) (auto simp: scan_int_def less_Suc_eq_le length_dropWhile_le split: if_splits)

lemma scan_frac_shorter: "scan_frac s = (ds, r) \<Longrightarrow> length r \<le> length s"
  by (cases s) (auto simp: scan_frac_def le_SucI length_dropWhile_le split: if_splits)

lemma dropWhile_le: "length xs \<le> n \<Longrightarrow> length (dropWhile P xs) \<le> n"
  using length_dropWhile_le [of P xs] by simp

lemma scan_exp_shorter: "scan_exp s = (ds, r) \<Longrightarrow> length r \<le> length s"
  by (cases s)
     (auto simp: scan_exp_def Let_def dropWhile_le split: if_splits list.splits prod.splits)

lemma match_number_shorter: "match_number s = Some (v, r) \<Longrightarrow> length r < length s"
proof -
  assume a: "match_number s = Some (v, r)"
  define s1 where "s1 = (case s of [] \<Rightarrow> s | c # t \<Rightarrow> if c = CHR ''-'' then t else s)"
  have l1: "length s1 \<le> length s" by (cases s) (simp_all add: s1_def)
  from a obtain integer s2 where i: "scan_int s1 = Some (integer, s2)"
    by (cases s; cases "scan_int s1")
       (auto simp: match_number_def s1_def Let_def split: if_splits prod.splits option.splits)
  obtain frac s3 where f: "scan_frac s2 = (frac, s3)" by (cases "scan_frac s2")
  obtain ex s4 where e: "scan_exp s3 = (ex, s4)" by (cases "scan_exp s3")
  from a i f e have "r = s4"
    by (cases s) (auto simp: match_number_def s1_def Let_def split: if_splits)
  with scan_int_shorter [OF i] scan_frac_shorter [OF f] scan_exp_shorter [OF e] l1
  show ?thesis by simp
qed

lemma scan_constant_shorter: "scan_constant s = Some (v, r) \<Longrightarrow> length r < length s"
  by (cases s) (auto simp: scan_constant_def split: if_splits)

lemma scan_atom_shorter: "scan_atom s = Some (v, r) \<Longrightarrow> length r < length s"
proof (cases s)
  case Nil
  assume "scan_atom s = Some (v, r)"
  with Nil show ?thesis by (simp add: scan_atom_def)
next
  case (Cons c cs)
  assume a: "scan_atom s = Some (v, r)"
  show ?thesis
  proof (cases "c = CHR 0x22")
    case True
    with a Cons obtain str where "scan_string cs = Some (str, r)"
      by (auto simp: scan_atom_def split: option.splits)
    from scan_string_shorter [OF this] Cons show ?thesis by simp
  next
    case False
    with a Cons consider "r = drop 4 s" | "r = drop 5 s"
      | "match_number s = Some (v, r)" | "scan_constant s = Some (v, r)"
      by (auto simp: scan_atom_def split: if_splits option.splits)
    then show ?thesis
    proof cases
      case 1
      with Cons show ?thesis by simp
    next
      case 2
      with Cons show ?thesis by simp
    next
      case 3
      then show ?thesis by (rule match_number_shorter)
    next
      case 4
      then show ?thesis by (rule scan_constant_shorter)
    qed
  qed
qed

lemma scan_delim_shorter:
  "scan_delim c s = Close r \<Longrightarrow> length r < length s"
  "scan_delim c s = Comma r \<Longrightarrow> length r < length s"
proof -
  have 1: "skip_ws s = d # t \<Longrightarrow> length t < length s" for d t
    using skip_ws_length [of s] by simp
  have 2: "skip_ws s = d # t \<Longrightarrow> length (skip_ws t) < length s" for d t
    using skip_ws_length [of s] skip_ws_length [of t] by simp
  show "scan_delim c s = Close r \<Longrightarrow> length r < length s"
    using 1 by (auto simp: scan_delim_def split: list.splits if_splits)
  show "scan_delim c s = Comma r \<Longrightarrow> length r < length s"
    using 2 by (auto simp: scan_delim_def split: list.splits if_splits)
qed

lemma scan_key_shorter: "scan_key s = Some (k, r) \<Longrightarrow> length r < length s"
proof (cases s)
  case Nil
  assume "scan_key s = Some (k, r)"
  with Nil show ?thesis by (simp add: scan_key_def)
next
  case (Cons c cs)
  assume a: "scan_key s = Some (k, r)"
  with Cons obtain r1 d r2 where s: "scan_string cs = Some (k, r1)"
    and w: "skip_ws r1 = d # r2" and r: "r = skip_ws r2"
    by (auto simp: scan_key_def split: if_splits option.splits list.splits)
  from scan_string_shorter [OF s] skip_ws_length [of r1] skip_ws_length [of r2] w r Cons
  show ?thesis by simp
qed


lemma parse_value_shorter:
  "parse_value s = Some (v, r) \<Longrightarrow> length r < length s"
  "parse_elements s1 = Some (vs, r1) \<Longrightarrow> length r1 < length s1"
  "parse_members s2 = Some (ps, r2) \<Longrightarrow> length r2 < length s2"
proof (induction s and s1 and s2 arbitrary: v r and vs r1 and ps r2
    rule: parse_value_parse_elements_parse_members.induct)
  case 1
  then show ?case by (simp add: parse_value.simps)
next
  case (2 c cs)
  show ?case
  proof (cases "c = CHR ''{''")
    case True
    show ?thesis
    proof (cases "scan_delim (CHR ''}'') cs")
      case (Close t)
      with True "2.prems" have "r = t" by (simp add: parse_value.simps)
      with scan_delim_shorter(1) [OF Close] show ?thesis by simp
    next
      case (Comma t)
      with True "2.prems" obtain pairs where "parse_members (skip_ws cs) = Some (pairs, r)"
        by (auto simp: parse_value.simps split: option.splits)
      from "2.IH"(1) [OF True Comma this] skip_ws_length [of cs] show ?thesis by simp
    next
      case Bad
      with True "2.prems" obtain pairs where "parse_members (skip_ws cs) = Some (pairs, r)"
        by (auto simp: parse_value.simps split: option.splits)
      from "2.IH"(2) [OF True Bad this] skip_ws_length [of cs] show ?thesis by simp
    qed
  next
    case no: False
    show ?thesis
    proof (cases "c = CHR ''[''")
      case True
      show ?thesis
      proof (cases "scan_delim (CHR '']'') cs")
        case (Close t)
        with True "2.prems" have "r = t" by (simp add: parse_value.simps)
        with scan_delim_shorter(1) [OF Close] show ?thesis by simp
      next
        case (Comma t)
        with True "2.prems" obtain vs where "parse_elements (skip_ws cs) = Some (vs, r)"
          by (auto simp: parse_value.simps split: option.splits)
        from "2.IH"(3) [OF no True Comma this] skip_ws_length [of cs] show ?thesis by simp
      next
        case Bad
        with True "2.prems" obtain vs where "parse_elements (skip_ws cs) = Some (vs, r)"
          by (auto simp: parse_value.simps split: option.splits)
        from "2.IH"(4) [OF no True Bad this] skip_ws_length [of cs] show ?thesis by simp
      qed
    next
      case False
      with no "2.prems" have "scan_atom (c # cs) = Some (v, r)" by (simp add: parse_value.simps)
      then show ?thesis by (rule scan_atom_shorter)
    qed
  qed
next
  case (3 s)
  from "3.prems" obtain v t where pv: "parse_value s = Some (v, t)"
    by (subst (asm) parse_elements.simps) (auto split: option.splits)
  from "3.IH"(1) [OF pv] have lt: "length t < length s" .
  show ?case
  proof (cases "scan_delim (CHR '']'') t")
    case (Close rest)
    with pv "3.prems" have "r1 = rest"
      by (subst (asm) parse_elements.simps) simp
    with scan_delim_shorter(1) [OF Close] lt show ?thesis by simp
  next
    case (Comma t2)
    from scan_delim_shorter(2) [OF Comma] lt have l2: "length t2 < length s" by simp
    with pv Comma "3.prems" obtain vs' where pe: "parse_elements t2 = Some (vs', r1)"
      by (subst (asm) parse_elements.simps) (auto split: option.splits)
    from "3.IH"(2) [OF pv refl Comma l2 pe] l2 show ?thesis by simp
  next
    case Bad
    with pv "3.prems" show ?thesis
      by (subst (asm) parse_elements.simps) simp
  qed
next
  case (4 s)
  from "4.prems" obtain key t where sk: "scan_key s = Some (key, t)"
    by (subst (asm) parse_members.simps) (auto split: option.splits)
  from scan_key_shorter [OF sk] have lt: "length t < length s" .
  with sk "4.prems" obtain v t1 where pv: "parse_value t = Some (v, t1)"
    by (subst (asm) parse_members.simps) (auto split: option.splits)
  from "4.IH"(1) [OF sk refl lt pv] lt have l1: "length t1 < length s" by simp
  show ?case
  proof (cases "scan_delim (CHR ''}'') t1")
    case (Close rest)
    with sk lt pv "4.prems" have "r2 = rest"
      by (subst (asm) parse_members.simps) simp
    with scan_delim_shorter(1) [OF Close] l1 show ?thesis by simp
  next
    case (Comma t2)
    from scan_delim_shorter(2) [OF Comma] l1 have l2: "length t2 < length s" by simp
    with sk lt pv Comma "4.prems" obtain ps' where pm: "parse_members t2 = Some (ps', r2)"
      by (subst (asm) parse_members.simps) (auto split: option.splits)
    from "4.IH"(2) [OF sk refl lt pv refl Comma l2 pm] l2 show ?thesis by simp
  next
    case Bad
    with sk lt pv "4.prems" show ?thesis
      by (subst (asm) parse_members.simps) simp
  qed
qed


text \<open>So the tests on the lengths never fail: the scanners satisfy the equations
  without them.\<close>

lemma parse_elements_unguarded:
  "parse_elements s =
     (case parse_value s of
        None \<Rightarrow> None
      | Some (v, r) \<Rightarrow>
          (case scan_delim (CHR '']'') r of
             Close rest \<Rightarrow> Some ([v], rest)
           | Comma r2 \<Rightarrow>
               (case parse_elements r2 of
                  None \<Rightarrow> None
                | Some (vs, rest) \<Rightarrow> Some (v # vs, rest))
           | Bad \<Rightarrow> None))"
proof (cases "parse_value s")
  case None
  then show ?thesis by (subst parse_elements.simps) simp
next
  case (Some p)
  obtain v r where p: "p = (v, r)" by (cases p)
  from parse_value_shorter(1) [of s v r] Some p have l: "length r < length s" by simp
  show ?thesis
  proof (cases "scan_delim (CHR '']'') r")
    case (Comma r2)
    from scan_delim_shorter(2) [OF Comma] l have "length r2 < length s" by simp
    with Some p Comma show ?thesis by (subst parse_elements.simps) simp
  qed (use Some p in \<open>subst parse_elements.simps, simp\<close>)+
qed

lemma parse_members_unguarded:
  "parse_members s =
     (case scan_key s of
        None \<Rightarrow> None
      | Some (key, r) \<Rightarrow>
          (case parse_value r of
             None \<Rightarrow> None
           | Some (v, r1) \<Rightarrow>
               (case scan_delim (CHR ''}'') r1 of
                  Close rest \<Rightarrow> Some ([(key, v)], rest)
                | Comma r2 \<Rightarrow>
                    (case parse_members r2 of
                       None \<Rightarrow> None
                     | Some (pairs, rest) \<Rightarrow> Some ((key, v) # pairs, rest))
                | Bad \<Rightarrow> None)))"
proof (cases "scan_key s")
  case None
  then show ?thesis by (subst parse_members.simps) simp
next
  case (Some p)
  obtain key r where p: "p = (key, r)" by (cases p)
  from scan_key_shorter [of s key r] Some p have l: "length r < length s" by simp
  show ?thesis
  proof (cases "parse_value r")
    case None
    with Some p l show ?thesis by (subst parse_members.simps) simp
  next
    case pv: (Some q)
    obtain v r1 where q: "q = (v, r1)" by (cases q)
    from parse_value_shorter(1) [of r v r1] pv q l have l1: "length r1 < length s" by simp
    show ?thesis
    proof (cases "scan_delim (CHR ''}'') r1")
      case (Comma r2)
      from scan_delim_shorter(2) [OF Comma] l1 have "length r2 < length s" by simp
      with Some p l pv q Comma show ?thesis by (subst parse_members.simps) simp
    qed (use Some p l pv q in \<open>subst parse_members.simps, simp\<close>)+
  qed
qed

section \<open>The gate of the use case agent and of the suggestion agent\<close>

lemma insufficient_None: "insufficient None = Inr True"
  by (simp add: insufficient_def)

lemma insufficient_NA:
  "map_of d (KStr ''industry'') = Some (JStr ''N/A'') \<Longrightarrow> insufficient (Some d) = Inr True"
  by (simp add: insufficient_def)

lemma insufficient_Error:
  "map_of d (KStr ''industry'') = Some (JStr ind) \<Longrightarrow> sublist ''Error'' ind \<Longrightarrow>
   insufficient (Some d) = Inr True"
  by (simp add: insufficient_def contains_Error_def py_in_str_sublist)

text \<open>
  Claim C8. For a profile that is \<^verbatim>\<open>None\<close>, or whose \<open>industry\<close> is \<^verbatim>\<open>"N/A"\<close>, or whose
  \<open>industry\<close> is a string in which \<^verbatim>\<open>Error\<close> occurs (case-sensitive, contiguous),
  \<open>use_case_generation_agent\<close> and \<open>optional_genai_proposer_agent\<close> both return the
  empty list, and the run they return is the run they were given: the world is
  untouched and no search and no generation was added to the calls.
\<close>

theorem gate_skips_agents:
  assumes "profile = None
     \<or> (\<exists>d. profile = Some d \<and> map_of d (KStr ''industry'') = Some (JStr ''N/A''))
     \<or> (\<exists>d ind. profile = Some d \<and> map_of d (KStr ''industry'') = Some (JStr ind)
           \<and> sublist ''Error'' ind)"
  shows "use_case_generation_agent profile search_tool llm_model s = (Inr [], s)
     \<and> optional_genai_proposer_agent profile llm_model s = (Inr [], s)"
proof -
  from assms have "insufficient profile = Inr True"
    using insufficient_None insufficient_NA insufficient_Error by blast
  then show ?thesis
    by (simp add: use_case_generation_agent_def optional_genai_proposer_agent_def)
qed

text \<open>The example of the specification, \<open>industry = "Error: timeout"\<close>.\<close>

theorem gate_skips_agents_witness:
  "sublist ''Error'' ''Error: timeout''
   \<and> use_case_generation_agent (Some [(KStr ''industry'', JStr ''Error: timeout'')])
       (\<lambda>q n w. ([], w)) (\<lambda>p w. (Inr [], w)) \<lparr>world = (), calls = []\<rparr>
     = (Inr [], \<lparr>world = (), calls = []\<rparr>)
   \<and> optional_genai_proposer_agent (Some [(KStr ''industry'', JStr ''Error: timeout'')])
       (\<lambda>p w. (Inr [], w)) \<lparr>world = (), calls = []\<rparr>
     = (Inr [], \<lparr>world = (), calls = []\<rparr>)"
proof -
  have e: "sublist ''Error'' ''Error: timeout''"
    by (simp add: py_in_str_sublist [symmetric] startswith_def)
  then show ?thesis
    using gate_skips_agents [of "Some [(KStr ''industry'', JStr ''Error: timeout'')]"
        "\<lambda>q n w. ([], w)" "\<lambda>p w. (Inr [], w)" "\<lparr>world = (), calls = []\<rparr>"]
    by simp
qed

section \<open>Research that fails\<close>

lemma contains_Error_str:
  "contains_Error (JStr ind) = Inr (sublist ''Error'' ind)"
  by (simp add: contains_Error_def py_in_str_sublist)

text \<open>When the gate holds.\<close>

lemma insufficient_True_iff:
  "insufficient profile = Inr True \<longleftrightarrow>
     profile = None
     \<or> (\<exists>d. profile = Some d
           \<and> (map_of d (KStr ''industry'') \<in> {None, Some JNull, Some (JStr ''N/A'')}
               \<or> (\<exists>v. map_of d (KStr ''industry'') = Some v \<and> contains_Error v = Inr True)))"
  by (cases profile) (auto simp: insufficient_def split: option.splits)

lemma research_search_empty:
  "\<forall>q\<in>set queries. \<forall>w. fst (search_tool q 5 w) = [] \<Longrightarrow>
   \<exists>s'. research_search search_tool queries acc s = (acc, s')
      \<and> calls s' = calls s @ map (\<lambda>q. Search q 5) queries"
proof (induction queries arbitrary: s)
  case Nil
  then show ?case by simp
next
  case (Cons q queries)
  obtain r w' where t: "search_tool q 5 (world s) = (r, w')"
    by (cases "search_tool q 5 (world s)")
  with Cons.prems have r: "r = []"
    by (metis fst_conv list.set_intros(1))
  let ?s1 = "\<lparr>world = w', calls = calls s @ [Search q 5]\<rparr>"
  from Cons.prems have "\<forall>q\<in>set queries. \<forall>w. fst (search_tool q 5 w) = []" by simp
  from Cons.IH [of ?s1] this obtain s' where
    "research_search search_tool queries acc ?s1 = (acc, s')"
    "calls s' = calls ?s1 @ map (\<lambda>q. Search q 5) queries" by blast
  with t r show ?case by (simp add: call_search_def)
qed

lemma orchestrator_failed:
  assumes "research_agent name search_tool llm_model s = (profile, s1)"
    and "insufficient profile = Inr True"
  shows "orchestrator name search_tool llm_model s =
     (Inr \<lparr>use_cases = [], resource_links = [], genai_suggestions = [],
           research_data = profile, status = ''Failed Research''\<rparr>, s1)"
  using assms by (simp add: orchestrator_def)

text \<open>
  Claim C2. When the search tool answers every one of the four research queries with no
  result, \<open>research_agent\<close> returns \<^verbatim>\<open>None\<close>, having made the four searches and
  no generation. And whenever the profile returned by \<open>research_agent\<close> fails the
  gate (it is \<^verbatim>\<open>None\<close>; or its \<open>industry\<close> is absent, \<^verbatim>\<open>None\<close> or \<^verbatim>\<open>"N/A"\<close>; or
  \<^verbatim>\<open>"Error" in industry\<close> holds), \<open>orchestrator\<close> returns the bundle with no use
  cases, no resource links, no suggestions and the status \<^verbatim>\<open>Failed Research\<close>, in the
  very run \<open>research_agent\<close> returned: nothing was called after the research, so the
  three other agents did not run.
\<close>

theorem failed_research_short_circuits:
  "((\<forall>q\<in>set (research_queries name). \<forall>w. fst (search_tool q 5 w) = []) \<longrightarrow>
      (\<exists>s1. research_agent name search_tool llm_model s = (None, s1)
         \<and> calls s1 = calls s @ map (\<lambda>q. Search q 5) (research_queries name)
         \<and> orchestrator name search_tool llm_model s =
             (Inr \<lparr>use_cases = [], resource_links = [], genai_suggestions = [],
                   research_data = None, status = ''Failed Research''\<rparr>, s1)))
   \<and> (research_agent name search_tool llm_model s = (profile, s1)
        \<and> (profile = None
            \<or> (\<exists>d. profile = Some d
                 \<and> (map_of d (KStr ''industry'') \<in> {None, Some JNull, Some (JStr ''N/A'')}
                     \<or> (\<exists>v. map_of d (KStr ''industry'') = Some v
                           \<and> contains_Error v = Inr True)))) \<longrightarrow>
       orchestrator name search_tool llm_model s =
         (Inr \<lparr>use_cases = [], resource_links = [], genai_suggestions = [],
               research_data = profile, status = ''Failed Research''\<rparr>, s1))"
proof (intro conjI impI)
  assume a: "\<forall>q\<in>set (research_queries name). \<forall>w. fst (search_tool q 5 w) = []"
  from research_search_empty [of "research_queries name" search_tool "([], [])" s] a
  obtain s1 where
    r: "research_search search_tool (research_queries name) ([], []) s = (([], []), s1)"
    and c: "calls s1 = calls s @ map (\<lambda>q. Search q 5) (research_queries name)" by blast
  from r have ra: "research_agent name search_tool llm_model s = (None, s1)"
    by (simp add: research_agent_def)
  from orchestrator_failed [OF ra insufficient_None] ra c
  show "\<exists>s1. research_agent name search_tool llm_model s = (None, s1)
         \<and> calls s1 = calls s @ map (\<lambda>q. Search q 5) (research_queries name)
         \<and> orchestrator name search_tool llm_model s =
             (Inr \<lparr>use_cases = [], resource_links = [], genai_suggestions = [],
                   research_data = None, status = ''Failed Research''\<rparr>, s1)" by blast
next
  assume "research_agent name search_tool llm_model s = (profile, s1)
        \<and> (profile = None
            \<or> (\<exists>d. profile = Some d
                 \<and> (map_of d (KStr ''industry'') \<in> {None, Some JNull, Some (JStr ''N/A'')}
                     \<or> (\<exists>v. map_of d (KStr ''industry'') = Some v
                           \<and> contains_Error v = Inr True))))"
  then have "research_agent name search_tool llm_model s = (profile, s1)"
    and "insufficient profile = Inr True"
    by (simp_all add: insufficient_True_iff)
  then show "orchestrator name search_tool llm_model s =
         (Inr \<lparr>use_cases = [], resource_links = [], genai_suggestions = [],
               research_data = profile, status = ''Failed Research''\<rparr>, s1)"
    by (rule orchestrator_failed)
qed

text \<open>Collaborators for the examples: a search that finds nothing, a generator that
  answers with the empty text, and the run that starts with no call made.\<close>

definition no_results :: "unit search_tool" where
  "no_results query num_results w = ([], w)"

definition silent :: "unit llm_model" where
  "silent prompt w = (Inr [], w)"

definition start :: "unit run" where
  "start = \<lparr>world = (), calls = []\<rparr>"

lemma no_results_run:
  "research_agent ''Acme'' no_results silent start =
     (None, \<lparr>world = (), calls = map (\<lambda>q. Search q 5) (research_queries ''Acme'')\<rparr>)"
  by (simp add: research_agent_def research_queries_def call_search_def no_results_def start_def)

theorem failed_research_short_circuits_witness:
  "research_agent ''Acme'' no_results silent start =
     (None, \<lparr>world = (), calls = map (\<lambda>q. Search q 5) (research_queries ''Acme'')\<rparr>)
   \<and> orchestrator ''Acme'' no_results silent start =
     (Inr \<lparr>use_cases = [], resource_links = [], genai_suggestions = [],
           research_data = None, status = ''Failed Research''\<rparr>,
      \<lparr>world = (), calls = map (\<lambda>q. Search q 5) (research_queries ''Acme'')\<rparr>)"
  using failed_research_short_circuits [of "''Acme''" no_results silent start None
      "\<lparr>world = (), calls = map (\<lambda>q. Search q 5) (research_queries ''Acme'')\<rparr>"]
    no_results_run
  by (simp add: no_results_def)

section \<open>Evaluating the model on examples\<close>

lemmas json_eval =
  json_loads_def parse_value.simps parse_elements.simps parse_members.simps
  scan_atom_def scan_key_def scan_delim_def skip_ws_def json_ws_def
  match_number_def scan_int_def scan_frac_def scan_exp_def scan_constant_def
  is_digit_def digit_val_def nat_of_digits_def consc_def dict_of_pairs_def
  scan_escape_def unescape_def hex_digit_def hex_val_def Let_def

lemmas string_eval =
  py_strip_def py_isspace_def clean_fences_def startswith_def endswith_def
  py_find_def py_rfind_def py_slice_def

text \<open>A search that finds the same items for every query, a generator that gives the
  same answer to every prompt, and one that always raises.\<close>

definition finds :: "search_item list \<Rightarrow> 'w search_tool" where
  "finds items query num_results w = (items, w)"

definition answers :: "string \<Rightarrow> 'w llm_model" where
  "answers text prompt w = (Inr text, w)"

definition raises :: "string \<Rightarrow> 'w llm_model" where
  "raises message prompt w = (Inl (GenerationError message), w)"

definition one_item :: search_item where
  "one_item = \<lparr>item_title = Some ''Acme Corp'', item_snippet = Some ''Acme makes anvils.'',
               item_link = Some ''https://acme.example''\<rparr>"

lemma finds_research_search:
  "research_search (finds items) queries acc s =
     ((fst acc @ concat (replicate (length queries) items),
       snd acc @ concat (map format_item (concat (replicate (length queries) items)))),
      \<lparr>world = world s, calls = calls s @ map (\<lambda>q. Search q 5) queries\<rparr>)"
  by (induction queries arbitrary: acc s) (simp_all add: call_search_def finds_def)

lemma answers_generate:
  "generate_content (answers text) prompt s =
     (Inr text, \<lparr>world = world s, calls = calls s @ [Generate prompt]\<rparr>)"
  by (simp add: generate_content_def answers_def)

section \<open>What the research agent returns\<close>

lemma length_research_queries: "length (research_queries name) = 4"
  by (simp add: research_queries_def)

lemma format_item_not_empty: "format_item item \<noteq> []"
  by (simp add: format_item_def)

lemma research_search_text:
  "research_search search_tool queries (found, concat (map format_item found)) s =
     ((results, text), s') \<Longrightarrow> text = concat (map format_item results)"
proof (induction queries arbitrary: found s)
  case Nil
  then show ?case by auto
next
  case (Cons q queries)
  obtain r s1 where c: "call_search search_tool q 5 s = (r, s1)"
    by (cases "call_search search_tool q 5 s")
  with Cons.prems have
    "research_search search_tool queries (found @ r, concat (map format_item (found @ r))) s1 =
       ((results, text), s')" by simp
  then show ?case by (rule Cons.IH)
qed

lemma research_search_text_empty:
  assumes "research_search search_tool queries ([], []) s = ((results, text), s')"
  shows "text = [] \<longleftrightarrow> results = []"
proof -
  have "text = concat (map format_item results)"
    using research_search_text [of search_tool queries "[]" s results "text" s'] assms by simp
  then show ?thesis by (cases results) (simp_all add: format_item_not_empty)
qed

lemma research_agent_parsed:
  assumes "research_search search_tool (research_queries name) ([], []) s = ((results, text), s1)"
    and "results \<noteq> []"
    and "generate_content llm_model (research_prompt name text) s1 = (Inr answer, s2)"
    and "json_loads (py_strip answer) = Some v
         \<or> (json_loads (py_strip answer) = None
             \<and> json_loads (clean_fences (py_strip answer)) = Some v)"
  shows "research_agent name search_tool llm_model s =
     (Some (default_industry (merge_extracted (initial_research_data name results) v)), s2)"
proof -
  from research_search_text_empty [OF assms(1)] assms(2) have "text \<noteq> []" by simp
  with assms(1,3,4) show ?thesis
    by (auto simp: research_agent_def research_extract_def Let_def)
qed

lemma map_of_fold_update:
  "map_of (fold (\<lambda>kv. AList.update (KStr (fst kv)) (snd kv)) kvs d) k =
     (case k of
        KStr n \<Rightarrow> (case map_of (rev kvs) n of Some v \<Rightarrow> Some v | None \<Rightarrow> map_of d k)
      | _ \<Rightarrow> map_of d k)"
proof (induction kvs arbitrary: d)
  case Nil
  then show ?case by (simp split: pykey.splits)
next
  case (Cons kv kvs)
  show ?case
    by (cases kv) (auto simp: Cons.IH update_conv' map_of_append map_add_def
        split: pykey.splits option.splits)
qed

lemma merge_object:
  "merge_extracted d (JObj kvs) = fold (\<lambda>kv. AList.update (KStr (fst kv)) (snd kv)) kvs d"
  by (simp add: merge_extracted_def dict_update_def)

lemma map_of_rev_None: "map_of (rev kvs) n = None \<longleftrightarrow> n \<notin> fst ` set kvs"
  by (simp add: map_of_eq_None_iff)

lemma default_industry_NA:
  "map_of d (KStr ''industry'') = Some JNull \<Longrightarrow>
   map_of (default_industry d) (KStr ''industry'') = Some (JStr ''N/A'')"
  by (simp add: default_industry_def update_conv')

text \<open>
  Claim C10. Some search found an item, the generator answered, and its answer parsed
  (as it is, or after the fence was removed) as a JSON object without the key
  \<open>industry\<close>. Then \<open>research_agent\<close> returns a profile, not \<^verbatim>\<open>None\<close>, whose
  \<open>industry\<close> is the string \<^verbatim>\<open>"N/A"\<close>, and \<open>orchestrator\<close> returns the bundle with the
  status \<^verbatim>\<open>Failed Research\<close> and empty collections, although the extraction
  succeeded.
\<close>

theorem object_without_industry:
  assumes "research_search search_tool (research_queries name) ([], []) s = ((results, text), s1)"
    and "results \<noteq> []"
    and "generate_content llm_model (research_prompt name text) s1 = (Inr answer, s2)"
    and "json_loads (py_strip answer) = Some (JObj kvs)
         \<or> (json_loads (py_strip answer) = None
             \<and> json_loads (clean_fences (py_strip answer)) = Some (JObj kvs))"
    and "''industry'' \<notin> fst ` set kvs"
  shows "\<exists>profile. research_agent name search_tool llm_model s = (Some profile, s2)
     \<and> map_of profile (KStr ''industry'') = Some (JStr ''N/A'')
     \<and> orchestrator name search_tool llm_model s =
         (Inr \<lparr>use_cases = [], resource_links = [], genai_suggestions = [],
               research_data = Some profile, status = ''Failed Research''\<rparr>, s2)"
proof -
  let ?d = "merge_extracted (initial_research_data name results) (JObj kvs)"
  have ra: "research_agent name search_tool llm_model s = (Some (default_industry ?d), s2)"
    using assms(1-4) by (rule research_agent_parsed)
  have "map_of ?d (KStr ''industry'') = Some JNull"
    using assms(5)
    by (simp add: merge_object map_of_fold_update map_of_rev_None [THEN iffD2]
        initial_research_data_def)
  then have na: "map_of (default_industry ?d) (KStr ''industry'') = Some (JStr ''N/A'')"
    by (rule default_industry_NA)
  from orchestrator_failed [OF ra insufficient_NA [OF na]] ra na show ?thesis by blast
qed

text \<open>An answer that is an object with a segment only.\<close>

definition retail_answer :: string where
  "retail_answer = ''{\"segment\": \"Retail\"}''"

lemma retail_answer_parsed: "json_loads (py_strip retail_answer) = Some (JObj [(''segment'', JStr ''Retail'')])"
  by (simp add: retail_answer_def string_eval json_eval)

theorem object_without_industry_witness:
  "\<exists>profile. research_agent ''Acme'' (finds [one_item]) (answers retail_answer) start =
       (Some profile,
        \<lparr>world = (), calls = map (\<lambda>q. Search q 5) (research_queries ''Acme'') @
          [Generate (research_prompt ''Acme''
             (concat (map format_item (concat (replicate 4 [one_item])))))]\<rparr>)
     \<and> map_of profile (KStr ''industry'') = Some (JStr ''N/A'')
     \<and> orchestrator ''Acme'' (finds [one_item]) (answers retail_answer) start =
         (Inr \<lparr>use_cases = [], resource_links = [], genai_suggestions = [],
               research_data = Some profile, status = ''Failed Research''\<rparr>,
          \<lparr>world = (), calls = map (\<lambda>q. Search q 5) (research_queries ''Acme'') @
            [Generate (research_prompt ''Acme''
               (concat (map format_item (concat (replicate 4 [one_item])))))]\<rparr>)"
proof -
  have 1: "research_search (finds [one_item]) (research_queries ''Acme'') ([], []) start =
     ((concat (replicate 4 [one_item]),
       concat (map format_item (concat (replicate 4 [one_item])))),
      \<lparr>world = (), calls = map (\<lambda>q. Search q 5) (research_queries ''Acme'')\<rparr>)"
    by (simp add: finds_research_search start_def length_research_queries)
  have 2: "concat (replicate 4 [one_item]) \<noteq> []"
    by (simp add: numeral_eq_Suc)
  have 3: "generate_content (answers retail_answer)
      (research_prompt ''Acme'' (concat (map format_item (concat (replicate 4 [one_item])))))
      \<lparr>world = (), calls = map (\<lambda>q. Search q 5) (research_queries ''Acme'')\<rparr> =
     (Inr retail_answer,
      \<lparr>world = (), calls = map (\<lambda>q. Search q 5) (research_queries ''Acme'') @
        [Generate (research_prompt ''Acme''
           (concat (map format_item (concat (replicate 4 [one_item])))))]\<rparr>)"
    by (simp add: answers_generate)
  have 4: "''industry'' \<notin> fst ` set [(''segment'', JStr ''Retail'')]" by simp
  show ?thesis
    using object_without_industry [OF 1 2 3 disjI1 [OF retail_answer_parsed] 4] .
qed

section \<open>Answers of the wrong type\<close>

text \<open>The generator answers with a JSON object whose \<open>industry\<close> is a number.\<close>

definition number_answer :: string where
  "number_answer = ''{\"industry\": 42}''"

lemma number_answer_parsed:
  "json_loads (py_strip number_answer) = Some (JObj [(''industry'', JInt 42)])"
  by (simp add: number_answer_def string_eval json_eval)

lemma finds_one_item_search:
  "research_search (finds [one_item]) (research_queries name) ([], []) start =
     ((concat (replicate 4 [one_item]),
       concat (map format_item (concat (replicate 4 [one_item])))),
      \<lparr>world = (), calls = map (\<lambda>q. Search q 5) (research_queries name)\<rparr>)"
  by (simp add: finds_research_search start_def length_research_queries)

lemma four_items_not_empty: "concat (replicate 4 [one_item]) \<noteq> []"
  by (simp add: numeral_eq_Suc)

lemma finds_answers_research:
  assumes "json_loads (py_strip answer) = Some v"
  shows "fst (research_agent name (finds [one_item]) (answers answer) start) =
     Some (default_industry
        (merge_extracted (initial_research_data name (concat (replicate 4 [one_item]))) v))"
  using research_agent_parsed [OF finds_one_item_search four_items_not_empty
      answers_generate disjI1 [OF assms]]
  by simp

text \<open>
  Claim C1 says that \<open>orchestrator\<close> never raises, whatever JSON the generator returns.
  The code does not meet it. With one search result and the answer
  \<^verbatim>\<open>{"industry": 42}\<close>, \<open>research_agent\<close> stores the number as the industry (line 122;
  line 155 only replaces \<^verbatim>\<open>None\<close>, though its comment says the industry is made a
  string for this check), and the gate of line 418 evaluates \<^verbatim>\<open>"Error" in 42\<close>, a
  \<^verbatim>\<open>TypeError\<close> that nothing catches.
\<close>

theorem orchestrator_raises:
  "fst (orchestrator ''Acme'' (finds [one_item]) (answers number_answer) start) =
     Inl (TypeError (''argument of type '' @ [CHR 0x27] @ ''int'' @ [CHR 0x27] @
                     '' is not iterable''))"
proof -
  obtain profile s1 where
    ra: "research_agent ''Acme'' (finds [one_item]) (answers number_answer) start = (profile, s1)"
    by (cases "research_agent ''Acme'' (finds [one_item]) (answers number_answer) start")
  with finds_answers_research [OF number_answer_parsed, of "''Acme''"]
  have p: "profile = Some (default_industry
        (merge_extracted (initial_research_data ''Acme'' (concat (replicate 4 [one_item])))
           (JObj [(''industry'', JInt 42)])))" by simp
  have "insufficient profile =
     Inl (TypeError (''argument of type '' @ [CHR 0x27] @ ''int'' @ [CHR 0x27] @
                     '' is not iterable''))"
    unfolding p
    by (simp add: insufficient_def default_industry_def merge_extracted_def dict_update_def
        initial_research_data_def contains_Error_def)
  with ra show ?thesis by (simp add: orchestrator_def)
qed


text \<open>
  The same happens further down the pipeline. A generator that gives its answers in turn
  answers the research prompt with a well-formed profile and the use case prompt with
  \<^verbatim>\<open>[1, 2, 3]\<close>, the example list of the specification: \<open>resource_collection_agent\<close>
  calls \<^verbatim>\<open>uc.get\<close> on a number (line 289).
\<close>

definition scripted :: "string list llm_model" where
  "scripted prompt script =
     (case script of
        [] \<Rightarrow> (Inl (GenerationError ''no answer left''), [])
      | a # rest \<Rightarrow> (Inr a, rest))"

definition tech_answer :: string where
  "tech_answer = ''{\"industry\": \"Tech\"}''"

definition numbers_answer :: string where
  "numbers_answer = ''[1, 2, 3]''"

lemma tech_answer_parsed:
  "json_loads (py_strip tech_answer) = Some (JObj [(''industry'', JStr ''Tech'')])"
  by (simp add: tech_answer_def string_eval json_eval)

lemma numbers_answer_list:
  "extract_list (py_strip numbers_answer) = [JInt 1, JInt 2, JInt 3]"
  by (simp add: numbers_answer_def extract_list_def list_or_empty_def string_eval json_eval)

lemma finds_trend_search:
  "trend_search (finds items) queries acc s =
     (acc @ concat (map format_item (concat (replicate (length queries) items))),
      \<lparr>world = world s, calls = calls s @ map (\<lambda>q. Search q 3) queries\<rparr>)"
  by (induction queries arbitrary: acc s) (simp_all add: call_search_def finds_def)

lemma tech_profile_sufficient:
  "insufficient (Some (default_industry
        (merge_extracted (initial_research_data name results) (JObj [(''industry'', JStr ''Tech'')]))))
   = Inr False"
  by (simp add: insufficient_def default_industry_def merge_extracted_def dict_update_def
      initial_research_data_def contains_Error_def startswith_def)

lemma orchestrator_raises_on_use_cases:
  "fst (orchestrator ''Acme'' (finds [one_item]) scripted
          \<lparr>world = [tech_answer, numbers_answer], calls = []\<rparr>) =
     Inl (AttributeError ([CHR 0x27] @ ''int'' @ [CHR 0x27] @ '' object has no attribute '' @
                          [CHR 0x27] @ ''get'' @ [CHR 0x27]))"
proof -
  let ?s0 = "\<lparr>world = [tech_answer, numbers_answer], calls = []\<rparr>"
  let ?profile = "default_industry
        (merge_extracted (initial_research_data ''Acme'' (concat (replicate 4 [one_item])))
           (JObj [(''industry'', JStr ''Tech'')]))"
  obtain s1 where ra: "research_agent ''Acme'' (finds [one_item]) scripted ?s0 = (Some ?profile, s1)"
    and w1: "world s1 = [numbers_answer]"
    using tech_answer_parsed
    by (simp add: research_agent_def finds_research_search research_extract_def
        generate_content_def scripted_def format_item_not_empty four_items_not_empty
        length_research_queries)
  have d: "?profile = [(KStr ''input_name'', JStr ''Acme''), (KStr ''industry'', JStr ''Tech''),
      (KStr ''segment'', JNull), (KStr ''offerings'', JNull), (KStr ''strategic_focus'', JNull),
      (KStr ''search_results'', JArr (map item_json (concat (replicate 4 [one_item]))))]"
    by (simp add: default_industry_def merge_extracted_def dict_update_def
        initial_research_data_def)
  have "fst (use_case_generation_agent (Some ?profile) (finds [one_item]) scripted s1) =
      Inr [JInt 1, JInt 2, JInt 3]"
    using numbers_answer_list w1 tech_profile_sufficient [of "''Acme''" "concat (replicate 4 [one_item])"]
    unfolding d
    by (simp add: use_case_generation_agent_def joined_field_def get_or_def finds_trend_search
        generate_list_def generate_content_def scripted_def Let_def)
  then obtain s2 where uc: "use_case_generation_agent (Some ?profile) (finds [one_item]) scripted s1 =
      (Inr [JInt 1, JInt 2, JInt 3], s2)"
    by (cases "use_case_generation_agent (Some ?profile) (finds [one_item]) scripted s1") simp
  have "fst (resource_collection_agent [JInt 1, JInt 2, JInt 3] (finds [one_item]) scripted s2) =
      Inl (AttributeError ([CHR 0x27] @ ''int'' @ [CHR 0x27] @ '' object has no attribute '' @
                          [CHR 0x27] @ ''get'' @ [CHR 0x27]))"
    by (simp add: resource_collection_agent_def)
  then obtain s3 where rc:
    "resource_collection_agent [JInt 1, JInt 2, JInt 3] (finds [one_item]) scripted s2 =
      (Inl (AttributeError ([CHR 0x27] @ ''int'' @ [CHR 0x27] @ '' object has no attribute '' @
                          [CHR 0x27] @ ''get'' @ [CHR 0x27])), s3)"
    by (cases "resource_collection_agent [JInt 1, JInt 2, JInt 3] (finds [one_item]) scripted s2")
      simp
  from ra uc rc tech_profile_sufficient [of "''Acme''" "concat (replicate 4 [one_item])"]
  show ?thesis
    by (simp add: orchestrator_def)
qed

section \<open>What the merge changes\<close>

lemma map_of_merge_object:
  "map_of (merge_extracted d (JObj kvs)) (KStr n) =
     (if n \<in> fst ` set kvs then map_of (rev kvs) n else map_of d (KStr n))"
proof (cases "map_of (rev kvs) n")
  case None
  then have "n \<notin> fst ` set kvs"
    using map_of_rev_None [of kvs n] by simp
  with None show ?thesis
    by (simp add: merge_object map_of_fold_update)
next
  case (Some v)
  then have "n \<in> fst ` set kvs"
    using map_of_rev_None [of kvs n] by simp
  with Some show ?thesis
    by (simp add: merge_object map_of_fold_update)
qed

lemma map_of_default_industry:
  "n \<noteq> ''industry'' \<Longrightarrow> map_of (default_industry d) (KStr n) = map_of d (KStr n)"
  by (simp add: default_industry_def update_conv')

text \<open>An answer that names the four expected keys only in part, and \<open>input_name\<close>
  besides.\<close>

definition renaming_answer :: string where
  "renaming_answer = ''{\"input_name\": \"Other Corp\", \"industry\": \"Tech\"}''"

lemma renaming_answer_parsed:
  "json_loads (py_strip renaming_answer) =
     Some (JObj [(''input_name'', JStr ''Other Corp''), (''industry'', JStr ''Tech'')])"
  by (simp add: renaming_answer_def string_eval json_eval)

text \<open>
  Claim C5 says that the merge leaves \<open>input_name\<close> and \<open>search_results\<close> unchanged for
  every parsed object, also one with such keys. It does not: \<^verbatim>\<open>research_data.update\<close>
  (lines 122 and 136) stores every key of the object. The record made for the subject
  \<^verbatim>\<open>Acme\<close> has the \<open>input_name\<close> \<^verbatim>\<open>Other Corp\<close> after the merge, and so has the
  profile \<open>research_agent\<close> returns.
\<close>

theorem merge_changes_input_name:
  "map_of (initial_research_data ''Acme'' []) (KStr ''input_name'') = Some (JStr ''Acme'')
   \<and> map_of (merge_extracted (initial_research_data ''Acme'' [])
         (JObj [(''input_name'', JStr ''Other Corp''), (''industry'', JStr ''Tech'')]))
        (KStr ''input_name'') = Some (JStr ''Other Corp'')
   \<and> map_option (\<lambda>profile. map_of profile (KStr ''input_name''))
        (fst (research_agent ''Acme'' (finds [one_item]) (answers renaming_answer) start))
      = Some (Some (JStr ''Other Corp''))"
proof -
  have "map_of (initial_research_data ''Acme'' []) (KStr ''input_name'') = Some (JStr ''Acme'')"
    by (simp add: initial_research_data_def)
  moreover have "map_of (merge_extracted (initial_research_data ''Acme'' [])
         (JObj [(''input_name'', JStr ''Other Corp''), (''industry'', JStr ''Tech'')]))
        (KStr ''input_name'') = Some (JStr ''Other Corp'')"
    by (simp add: map_of_merge_object)
  moreover have "map_option (\<lambda>profile. map_of profile (KStr ''input_name''))
        (fst (research_agent ''Acme'' (finds [one_item]) (answers renaming_answer) start))
      = Some (Some (JStr ''Other Corp''))"
    by (simp add: finds_answers_research [OF renaming_answer_parsed] map_of_default_industry
        map_of_merge_object)
  ultimately show ?thesis by blast
qed

lemma map_of_merge_object_any:
  "map_of (merge_extracted d (JObj kvs)) k =
     (case k of
        KStr n \<Rightarrow> if n \<in> fst ` set kvs then map_of (rev kvs) n else map_of d k
      | _ \<Rightarrow> map_of d k)"
proof (cases k)
  case (KStr n)
  then show ?thesis by (simp add: map_of_merge_object)
qed (simp_all add: merge_object map_of_fold_update)

lemma map_of_default_industry_industry:
  "map_of (default_industry d) (KStr ''industry'') =
     (if map_of d (KStr ''industry'') = None \<or> map_of d (KStr ''industry'') = Some JNull
      then Some (JStr ''N/A'') else map_of d (KStr ''industry''))"
  by (simp add: default_industry_def update_conv')

lemma map_of_default_industry_other:
  "k \<noteq> KStr ''industry'' \<Longrightarrow> map_of (default_industry d) k = map_of d k"
  by (simp add: default_industry_def update_conv')

text \<open>
  Claim C5, amended. When \<open>research_agent\<close> parses the generator's answer as a JSON
  object, the merge of lines 122 and 136 stores every key of the object, whichever key
  it is: the merged record has, under every key, the value the object gives to that key
  (the last one, when the object names the key twice) when the object has the key, and
  the value of the initial record otherwise. So \<open>input_name\<close> and \<open>search_results\<close> are
  the subject's name and the items found exactly when the object does not name them.
  The profile returned is the merged record, but for one key: an \<open>industry\<close> that is
  still null after the merge (the object has no such key, or gives it null) is
  replaced by \<^verbatim>\<open>N/A\<close> (lines 155 and 156); an \<open>industry\<close> the object gives
  any other value is that value.
\<close>

theorem merge_overrides_present_keys:
  assumes "research_search search_tool (research_queries name) ([], []) s = ((results, all_text), s1)"
    and "results \<noteq> []"
    and "generate_content llm_model (research_prompt name all_text) s1 = (Inr answer, s2)"
    and "json_loads (py_strip answer) = Some (JObj kvs)
         \<or> (json_loads (py_strip answer) = None
             \<and> json_loads (clean_fences (py_strip answer)) = Some (JObj kvs))"
  shows "\<exists>merged profile.
       merged = merge_extracted (initial_research_data name results) (JObj kvs)
     \<and> profile = default_industry merged
     \<and> research_agent name search_tool llm_model s = (Some profile, s2)
     \<and> (\<forall>k. map_of merged k =
           (case k of
              KStr n \<Rightarrow> if n \<in> fst ` set kvs then map_of (rev kvs) n
                        else map_of (initial_research_data name results) k
            | _ \<Rightarrow> map_of (initial_research_data name results) k))
     \<and> (\<forall>k. k \<noteq> KStr ''industry'' \<longrightarrow> map_of profile k = map_of merged k)
     \<and> map_of profile (KStr ''industry'') =
           (if ''industry'' \<in> fst ` set kvs \<and> map_of (rev kvs) ''industry'' \<noteq> Some JNull
            then map_of (rev kvs) ''industry'' else Some (JStr ''N/A''))
     \<and> (\<forall>n. n \<noteq> ''industry'' \<longrightarrow>
           map_of profile (KStr n) =
             (if n \<in> fst ` set kvs then map_of (rev kvs) n
              else map_of (initial_research_data name results) (KStr n)))
     \<and> map_of profile (KStr ''input_name'') =
           (if ''input_name'' \<in> fst ` set kvs then map_of (rev kvs) ''input_name''
            else Some (JStr name))
     \<and> map_of profile (KStr ''search_results'') =
           (if ''search_results'' \<in> fst ` set kvs then map_of (rev kvs) ''search_results''
            else Some (JArr (map item_json results)))"
proof -
  let ?init = "initial_research_data name results"
  let ?d = "merge_extracted ?init (JObj kvs)"
  have ra: "research_agent name search_tool llm_model s = (Some (default_industry ?d), s2)"
    using assms by (rule research_agent_parsed)
  have all: "\<forall>k. map_of ?d k =
           (case k of
              KStr n \<Rightarrow> if n \<in> fst ` set kvs then map_of (rev kvs) n else map_of ?init k
            | _ \<Rightarrow> map_of ?init k)"
    by (simp add: map_of_merge_object_any)
  have other: "\<forall>k. k \<noteq> KStr ''industry'' \<longrightarrow> map_of (default_industry ?d) k = map_of ?d k"
    by (simp add: map_of_default_industry_other)
  have init: "map_of ?init (KStr ''input_name'') = Some (JStr name)"
    "map_of ?init (KStr ''search_results'') = Some (JArr (map item_json results))"
    "map_of ?init (KStr ''industry'') = Some JNull"
    by (simp_all add: initial_research_data_def)
  have ind: "map_of ?d (KStr ''industry'') =
           (if ''industry'' \<in> fst ` set kvs then map_of (rev kvs) ''industry'' else Some JNull)"
    using init(3) by (simp add: map_of_merge_object)
  have industry: "map_of (default_industry ?d) (KStr ''industry'') =
           (if ''industry'' \<in> fst ` set kvs \<and> map_of (rev kvs) ''industry'' \<noteq> Some JNull
            then map_of (rev kvs) ''industry'' else Some (JStr ''N/A''))"
  proof (cases "''industry'' \<in> fst ` set kvs")
    case True
    then have "map_of (rev kvs) ''industry'' \<noteq> None"
      using map_of_rev_None [of kvs "''industry''"] by simp
    with True ind show ?thesis
      by (simp add: map_of_default_industry_industry)
  next
    case False
    with ind show ?thesis
      by (simp add: map_of_default_industry_industry)
  qed
  have 1: "\<forall>n. n \<noteq> ''industry'' \<longrightarrow>
           map_of (default_industry ?d) (KStr n) =
             (if n \<in> fst ` set kvs then map_of (rev kvs) n
              else map_of ?init (KStr n))"
    by (simp add: map_of_default_industry map_of_merge_object)
  from 1 have 3: "map_of (default_industry ?d) (KStr ''input_name'') =
           (if ''input_name'' \<in> fst ` set kvs then map_of (rev kvs) ''input_name''
            else Some (JStr name))"
    using init(1) by simp
  from 1 have 4: "map_of (default_industry ?d) (KStr ''search_results'') =
           (if ''search_results'' \<in> fst ` set kvs then map_of (rev kvs) ''search_results''
            else Some (JArr (map item_json results)))"
    using init(2) by simp
  from ra all other industry 1 3 4 show ?thesis by blast
qed

theorem merge_overrides_present_keys_witness:
  "\<exists>profile. research_agent ''Acme'' (finds [one_item]) (answers renaming_answer) start =
       (Some profile,
        \<lparr>world = (), calls = map (\<lambda>q. Search q 5) (research_queries ''Acme'') @
          [Generate (research_prompt ''Acme''
             (concat (map format_item (concat (replicate 4 [one_item])))))]\<rparr>)
     \<and> map_of profile (KStr ''segment'') = Some JNull
     \<and> map_of profile (KStr ''industry'') = Some (JStr ''Tech'')
     \<and> map_of profile (KNum 1) = None
     \<and> map_of profile (KStr ''input_name'') = Some (JStr ''Other Corp'')
     \<and> map_of profile (KStr ''search_results'') =
         Some (JArr (map item_json (concat (replicate 4 [one_item]))))"
proof -
  let ?kvs = "[(''input_name'', JStr ''Other Corp''), (''industry'', JStr ''Tech'')]"
  let ?init = "initial_research_data ''Acme'' (concat (replicate 4 [one_item]))"
  have 3: "generate_content (answers renaming_answer)
      (research_prompt ''Acme'' (concat (map format_item (concat (replicate 4 [one_item])))))
      \<lparr>world = (), calls = map (\<lambda>q. Search q 5) (research_queries ''Acme'')\<rparr> =
     (Inr renaming_answer,
      \<lparr>world = (), calls = map (\<lambda>q. Search q 5) (research_queries ''Acme'') @
        [Generate (research_prompt ''Acme''
           (concat (map format_item (concat (replicate 4 [one_item])))))]\<rparr>)"
    by (simp add: answers_generate)
  from merge_overrides_present_keys [OF finds_one_item_search four_items_not_empty 3
      disjI1 [OF renaming_answer_parsed]]
  obtain merged profile where p:
    "research_agent ''Acme'' (finds [one_item]) (answers renaming_answer) start =
       (Some profile,
        \<lparr>world = (), calls = map (\<lambda>q. Search q 5) (research_queries ''Acme'') @
          [Generate (research_prompt ''Acme''
             (concat (map format_item (concat (replicate 4 [one_item])))))]\<rparr>)"
    "\<forall>k. map_of merged k =
           (case k of
              KStr n \<Rightarrow> if n \<in> fst ` set ?kvs then map_of (rev ?kvs) n else map_of ?init k
            | _ \<Rightarrow> map_of ?init k)"
    "\<forall>k. k \<noteq> KStr ''industry'' \<longrightarrow> map_of profile k = map_of merged k"
    "map_of profile (KStr ''industry'') =
           (if ''industry'' \<in> fst ` set ?kvs \<and> map_of (rev ?kvs) ''industry'' \<noteq> Some JNull
            then map_of (rev ?kvs) ''industry'' else Some (JStr ''N/A''))"
    by blast
  from p(4) have i: "map_of profile (KStr ''industry'') = Some (JStr ''Tech'')"
    by simp
  from p(2) have m: "map_of merged (KStr ''segment'') = Some JNull"
    "map_of merged (KNum 1) = None"
    "map_of merged (KStr ''input_name'') = Some (JStr ''Other Corp'')"
    "map_of merged (KStr ''search_results'') =
         Some (JArr (map item_json (concat (replicate 4 [one_item]))))"
    by (simp_all add: initial_research_data_def)
  from p(3) m have "map_of profile (KStr ''segment'') = Some JNull"
    "map_of profile (KNum 1) = None"
    "map_of profile (KStr ''input_name'') = Some (JStr ''Other Corp'')"
    "map_of profile (KStr ''search_results'') =
         Some (JArr (map item_json (concat (replicate 4 [one_item]))))"
    by simp_all
  with p(1) i show ?thesis by blast
qed

section \<open>The links collected for a use case\<close>

definition links_ok :: "resource list \<Rightarrow> bool" where
  "links_ok links \<longleftrightarrow> distinct (map res_link links) \<and> [] \<notin> res_link ` set links"

lemma res_link_resource_of: "res_link (resource_of item link) = link"
  by (simp add: resource_of_def)

lemma add_item_ok: "links_ok links \<Longrightarrow> links_ok (add_item item links)"
  by (auto simp: links_ok_def add_item_def res_link_resource_of split: option.splits)

lemma add_items_ok: "links_ok links \<Longrightarrow> links_ok (add_items items links)"
  unfolding add_items_def
  by (induction items arbitrary: links) (simp_all add: add_item_ok)

lemma add_item_keeps: "set links \<subseteq> set (add_item item links)"
  by (auto simp: add_item_def split: option.splits)

lemma add_items_keeps: "set links \<subseteq> set (add_items items links)"
  unfolding add_items_def
proof (induction items arbitrary: links)
  case Nil
  then show ?case by simp
next
  case (Cons i items)
  from add_item_keeps [of links i] Cons.IH [of "add_item i links"] show ?case by auto
qed

lemma add_items_Cons: "add_items (i # items) links = add_items items (add_item i links)"
  by (simp add: add_items_def)

lemma add_items_append: "add_items (xs @ ys) links = add_items ys (add_items xs links)"
  by (simp add: add_items_def)

text \<open>Every link that is present and not empty gets an entry.\<close>

lemma add_item_present:
  "item_link i = Some l \<Longrightarrow> l \<noteq> [] \<Longrightarrow> l \<in> res_link ` set (add_item i links)"
  by (auto simp: add_item_def res_link_resource_of)

lemma add_items_present:
  "i \<in> set items \<Longrightarrow> item_link i = Some l \<Longrightarrow> l \<noteq> [] \<Longrightarrow>
   l \<in> res_link ` set (add_items items links)"
proof (induction items arbitrary: links)
  case Nil
  then show ?case by simp
next
  case (Cons j items)
  show ?case
  proof (cases "i = j")
    case True
    with Cons.prems have "l \<in> res_link ` set (add_item j links)"
      by (auto simp: add_item_def res_link_resource_of)
    with add_items_keeps [of "add_item j links" items] show ?thesis
      by (auto simp: add_items_Cons)
  next
    case False
    with Cons.prems have "i \<in> set items" by simp
    from Cons.IH [OF this Cons.prems(2,3)] show ?thesis by (simp add: add_items_Cons)
  qed
qed

text \<open>An entry was in the list before, or was made of the first item with its link.\<close>

lemma add_items_first:
  "links_ok links \<Longrightarrow> r \<in> set (add_items items links) \<Longrightarrow>
   r \<in> set links
   \<or> (\<exists>i. find (\<lambda>j. item_link j = Some (res_link r)) items = Some i
          \<and> r = resource_of i (res_link r))"
proof (induction items arbitrary: links)
  case Nil
  then show ?case by (simp add: add_items_def)
next
  case (Cons j items)
  let ?links = "add_item j links"
  have ok: "links_ok ?links" using Cons.prems(1) by (rule add_item_ok)
  from Cons.prems(2) have r: "r \<in> set (add_items items ?links)" by (simp add: add_items_Cons)
  from Cons.IH [OF ok r] consider
    (old) "r \<in> set ?links"
    | (new) i where "find (\<lambda>j. item_link j = Some (res_link r)) items = Some i"
        "r = resource_of i (res_link r)"
    by blast
  then show ?case
  proof cases
    case old
    then show ?thesis
      by (auto simp: add_item_def res_link_resource_of split: option.splits if_splits)
  next
    case new
    show ?thesis
    proof (cases "item_link j = Some (res_link r)")
      case False
      with new show ?thesis by simp
    next
      case True
      from add_items_ok [OF ok, of items] r have ne: "res_link r \<noteq> []"
        unfolding links_ok_def by (metis imageI)
      from add_item_present [OF True ne, of links]
      obtain r0 where r0: "r0 \<in> set ?links" "res_link r0 = res_link r"
        by auto
      with add_items_keeps [of ?links items] have "r0 \<in> set (add_items items ?links)" by auto
      with r r0(2) add_items_ok [OF ok, of items] have "r0 = r"
        by (auto simp: links_ok_def distinct_map inj_on_def)
      with r0(1) have "r \<in> set ?links" by simp
      then show ?thesis using True
        by (auto simp: add_item_def res_link_resource_of split: option.splits if_splits)
    qed
  qed
qed

lemma filter_one:
  "distinct (map f xs) \<Longrightarrow> x \<in> set xs \<Longrightarrow> filter (\<lambda>y. f y = f x) xs = [x]"
proof (induction xs)
  case Nil
  then show ?case by simp
next
  case (Cons a xs)
  show ?case
  proof (cases "a = x")
    case True
    with Cons.prems(1) have "\<forall>y\<in>set xs. f y \<noteq> f x" by (metis distinct.simps(2) imageI list.simps(9) set_map)
    then have "filter (\<lambda>y. f y = f x) xs = []" by (simp add: filter_empty_conv)
    with True show ?thesis by simp
  next
    case False
    with Cons.prems have "x \<in> set xs" "f a \<noteq> f x" by auto
    with Cons show ?thesis by simp
  qed
qed

lemma add_items_one_entry:
  assumes "i \<in> set items" and "item_link i = Some l" and "l \<noteq> []"
  shows "\<exists>first. find (\<lambda>j. item_link j = Some l) items = Some first
     \<and> filter (\<lambda>r. res_link r = l) (add_items items []) = [resource_of first l]"
proof -
  have ok: "links_ok []" by (simp add: links_ok_def)
  from add_items_present [OF assms, of "[]"] obtain r where
    r: "r \<in> set (add_items items [])" "res_link r = l" by auto
  from add_items_first [OF ok r(1)] r(2) obtain first where
    f: "find (\<lambda>j. item_link j = Some l) items = Some first" "r = resource_of first l"
    by auto
  from add_items_ok [OF ok, of items] have "distinct (map res_link (add_items items []))"
    by (simp add: links_ok_def)
  from filter_one [OF this r(1)] r(2) f show ?thesis by simp
qed

section \<open>The map returned by the resource agent\<close>

text \<open>
  The items found for the queries of one use case, in the order of the calls and, for
  one call, in the order of the answer.
\<close>

fun searched ::
  "'w search_tool \<Rightarrow> string list \<Rightarrow> 'w run \<Rightarrow> search_item list \<times> 'w run" where
  "searched search_tool [] s = ([], s)"
| "searched search_tool (query # queries) s =
     (case call_search search_tool query 2 s of
        (results, s') \<Rightarrow>
          (case searched search_tool queries s' of
             (later, s'') \<Rightarrow> (results @ later, s'')))"

text \<open>
  The use cases visited by the loop of line 288, in order: for each the key its title
  makes and the items found for it.
\<close>

fun visits ::
  "'w search_tool \<Rightarrow> json list \<Rightarrow> 'w run \<Rightarrow> (pykey \<times> search_item list) list" where
  "visits search_tool [] s = []"
| "visits search_tool (uc # ucs) s =
     (case uc of
        JObj kvs \<Rightarrow>
          (let title = (case map_of kvs ''title'' of None \<Rightarrow> JStr ''Untitled Use Case'' | Some t \<Rightarrow> t)
           in case key_of title of
                None \<Rightarrow> []
              | Some k \<Rightarrow>
                  (case searched search_tool (queries_for_uc title) s of
                     (found, s') \<Rightarrow> (k, found) # visits search_tool ucs s'))
      | _ \<Rightarrow> [])"

lemma collect_links_searched:
  "collect_links search_tool queries links s =
     (add_items (fst (searched search_tool queries s)) links,
      snd (searched search_tool queries s))"
proof (induction queries arbitrary: links s)
  case Nil
  show ?case by (simp add: add_items_def)
next
  case (Cons q queries)
  obtain results s1 where c: "call_search search_tool q 2 s = (results, s1)"
    by (cases "call_search search_tool q 2 s")
  obtain later s2 where l: "searched search_tool queries s1 = (later, s2)"
    by (cases "searched search_tool queries s1")
  from Cons.IH [of "add_items results links" s1] c l show ?case
    by (simp add: add_items_append)
qed

lemma collect_use_cases_distinct:
  "collect_use_cases search_tool ucs m s = (Inr m', s') \<Longrightarrow>
   distinct (map fst m) \<Longrightarrow> distinct (map fst m')"
proof (induction ucs arbitrary: m s)
  case Nil
  then show ?case by simp
next
  case (Cons uc ucs)
  from Cons.prems(1) obtain kvs where uc: "uc = JObj kvs"
    by (cases uc) simp_all
  define title where "title = (case map_of kvs ''title'' of None \<Rightarrow> JStr ''Untitled Use Case'' | Some t \<Rightarrow> t)"
  from Cons.prems(1) uc obtain k where k: "key_of title = Some k"
    by (cases "key_of title") (simp_all add: title_def)
  obtain links s1 where
    c: "collect_links search_tool (queries_for_uc title) [] s = (links, s1)"
    by (cases "collect_links search_tool (queries_for_uc title) [] s")
  with Cons.prems(1) uc k have
    r: "collect_use_cases search_tool ucs (AList.update k links m) s1 = (Inr m', s')"
    by (simp add: title_def)
  from Cons.prems(2) have "distinct (map fst (AList.update k links m))"
    by (rule distinct_update)
  from Cons.IH [OF r this] show ?case .
qed

lemma collect_use_cases_map:
  "collect_use_cases search_tool ucs m s = (Inr m', s') \<Longrightarrow>
   map_of m' k =
     (case map_of (rev (visits search_tool ucs s)) k of
        None \<Rightarrow> map_of m k
      | Some found \<Rightarrow> Some (add_items found []))"
proof (induction ucs arbitrary: m s)
  case Nil
  then show ?case by simp
next
  case (Cons uc ucs)
  from Cons.prems(1) obtain kvs where uc: "uc = JObj kvs"
    by (cases uc) simp_all
  define title where "title = (case map_of kvs ''title'' of None \<Rightarrow> JStr ''Untitled Use Case'' | Some t \<Rightarrow> t)"
  from Cons.prems(1) uc obtain k0 where k0: "key_of title = Some k0"
    by (cases "key_of title") (simp_all add: title_def)
  obtain found s1 where f: "searched search_tool (queries_for_uc title) s = (found, s1)"
    by (cases "searched search_tool (queries_for_uc title) s")
  then have c: "collect_links search_tool (queries_for_uc title) [] s = (add_items found [], s1)"
    by (simp add: collect_links_searched)
  with Cons.prems(1) uc k0 have
    r: "collect_use_cases search_tool ucs (AList.update k0 (add_items found []) m) s1 = (Inr m', s')"
    by (simp add: title_def)
  have v: "visits search_tool (uc # ucs) s = (k0, found) # visits search_tool ucs s1"
    using uc k0 f by (simp add: title_def)
  from Cons.IH [OF r] show ?case
    unfolding v by (simp add: update_conv' map_add_def split: option.splits)
qed


lemma collect_use_cases_total:
  "\<forall>uc\<in>set ucs. \<exists>kvs. uc = JObj kvs
       \<and> (map_of kvs ''title'' = None
           \<or> (\<exists>t k. map_of kvs ''title'' = Some t \<and> key_of t = Some k)) \<Longrightarrow>
   \<exists>m' s'. collect_use_cases search_tool ucs m s = (Inr m', s')"
proof (induction ucs arbitrary: m s)
  case Nil
  then show ?case by simp
next
  case (Cons uc ucs)
  from Cons.prems obtain kvs where uc: "uc = JObj kvs"
    and t: "map_of kvs ''title'' = None
           \<or> (\<exists>t k. map_of kvs ''title'' = Some t \<and> key_of t = Some k)" by auto
  define title where "title = (case map_of kvs ''title'' of None \<Rightarrow> JStr ''Untitled Use Case'' | Some t \<Rightarrow> t)"
  from t obtain k where k: "key_of title = Some k"
    by (auto simp: title_def)
  obtain links s1 where c: "collect_links search_tool (queries_for_uc title) [] s = (links, s1)"
    by (cases "collect_links search_tool (queries_for_uc title) [] s")
  from Cons.prems have "\<forall>uc\<in>set ucs. \<exists>kvs. uc = JObj kvs
       \<and> (map_of kvs ''title'' = None
           \<or> (\<exists>t k. map_of kvs ''title'' = Some t \<and> key_of t = Some k))" by simp
  from Cons.IH [OF this, of "AList.update k links m" s1] uc k c show ?case
    by (simp add: title_def)
qed

text \<open>
  Claim C9. When \<open>resource_collection_agent\<close> returns a map, the map has one list for
  every title visited and no other; the list of a title is made of the items the
  searches returned for the last use case with that title, in the order of the calls
  and of the answers (\<open>visits\<close>). In that list the links are pairwise distinct and none
  is empty; every entry is made of the first of these items that has the entry's link,
  with that item's title and snippet; and for an item with a link that is not empty
  the list has exactly one entry with that link, made of the first item that has it.
  An item without a link or with an empty link makes no entry. The same holds of the
  list \<open>add_items\<close> makes of any items. The agent does return a map when every use case
  is an object whose title, if it has one, is hashable.
\<close>

theorem resource_links_deduplicated:
  "(resource_collection_agent ucs search_tool llm_model s = (Inr m, s') \<longrightarrow>
      distinct (map fst m)
      \<and> (\<forall>k. map_of m k =
             map_option (\<lambda>found. add_items found [])
               (map_of (rev (visits search_tool ucs s)) k))
      \<and> (\<forall>(k, links)\<in>set m.
            \<exists>found. map_of (rev (visits search_tool ucs s)) k = Some found
              \<and> links = add_items found []
              \<and> distinct (map res_link links) \<and> [] \<notin> res_link ` set links
              \<and> (\<forall>r\<in>set links.
                    \<exists>i. find (\<lambda>j. item_link j = Some (res_link r)) found = Some i
                       \<and> r = resource_of i (res_link r))
              \<and> (\<forall>i\<in>set found. \<forall>l. item_link i = Some l \<and> l \<noteq> [] \<longrightarrow>
                    (\<exists>first. find (\<lambda>j. item_link j = Some l) found = Some first
                       \<and> filter (\<lambda>r. res_link r = l) links = [resource_of first l]))))
   \<and> distinct (map res_link (add_items items []))
   \<and> [] \<notin> res_link ` set (add_items items [])
   \<and> (\<forall>r\<in>set (add_items items []).
          \<exists>i\<in>set items. item_link i = Some (res_link r) \<and> r = resource_of i (res_link r))
   \<and> (\<forall>i\<in>set items. \<forall>l. item_link i = Some l \<and> l \<noteq> [] \<longrightarrow>
          (\<exists>first. find (\<lambda>j. item_link j = Some l) items = Some first
             \<and> filter (\<lambda>r. res_link r = l) (add_items items []) = [resource_of first l]))
   \<and> ((\<forall>uc\<in>set ucs. \<exists>kvs. uc = JObj kvs
           \<and> (map_of kvs ''title'' = None
               \<or> (\<exists>t k. map_of kvs ''title'' = Some t \<and> key_of t = Some k))) \<longrightarrow>
        (\<exists>m s'. resource_collection_agent ucs search_tool llm_model s = (Inr m, s')))"
proof -
  have ok: "links_ok []" by (simp add: links_ok_def)
  have all_ok: "links_ok (add_items found [])" for found
    using ok by (rule add_items_ok)
  have first: "\<forall>r\<in>set (add_items found []).
          \<exists>i. find (\<lambda>j. item_link j = Some (res_link r)) found = Some i
             \<and> r = resource_of i (res_link r)" for found
  proof
    fix r assume "r \<in> set (add_items found [])"
    from add_items_first [OF ok this]
    show "\<exists>i. find (\<lambda>j. item_link j = Some (res_link r)) found = Some i
             \<and> r = resource_of i (res_link r)" by simp
  qed
  have one: "\<forall>i\<in>set found. \<forall>l. item_link i = Some l \<and> l \<noteq> [] \<longrightarrow>
          (\<exists>first. find (\<lambda>j. item_link j = Some l) found = Some first
             \<and> filter (\<lambda>r. res_link r = l) (add_items found []) = [resource_of first l])"
    for found
    using add_items_one_entry by blast
  have 1: "resource_collection_agent ucs search_tool llm_model s = (Inr m, s') \<longrightarrow>
      distinct (map fst m)
      \<and> (\<forall>k. map_of m k =
             map_option (\<lambda>found. add_items found [])
               (map_of (rev (visits search_tool ucs s)) k))
      \<and> (\<forall>(k, links)\<in>set m.
            \<exists>found. map_of (rev (visits search_tool ucs s)) k = Some found
              \<and> links = add_items found []
              \<and> distinct (map res_link links) \<and> [] \<notin> res_link ` set links
              \<and> (\<forall>r\<in>set links.
                    \<exists>i. find (\<lambda>j. item_link j = Some (res_link r)) found = Some i
                       \<and> r = resource_of i (res_link r))
              \<and> (\<forall>i\<in>set found. \<forall>l. item_link i = Some l \<and> l \<noteq> [] \<longrightarrow>
                    (\<exists>first. find (\<lambda>j. item_link j = Some l) found = Some first
                       \<and> filter (\<lambda>r. res_link r = l) links = [resource_of first l])))"
  proof
    assume a: "resource_collection_agent ucs search_tool llm_model s = (Inr m, s')"
    have d: "distinct (map fst m)"
      and mp: "\<forall>k. map_of m k =
             map_option (\<lambda>found. add_items found [])
               (map_of (rev (visits search_tool ucs s)) k)"
    proof -
      show "distinct (map fst m)"
      proof (cases "ucs = []")
        case True
        with a show ?thesis by (simp add: resource_collection_agent_def)
      next
        case False
        with a have "collect_use_cases search_tool ucs [] s = (Inr m, s')"
          by (simp add: resource_collection_agent_def)
        from collect_use_cases_distinct [OF this] show ?thesis by simp
      qed
      show "\<forall>k. map_of m k =
             map_option (\<lambda>found. add_items found [])
               (map_of (rev (visits search_tool ucs s)) k)"
      proof (cases "ucs = []")
        case True
        with a show ?thesis by (simp add: resource_collection_agent_def)
      next
        case False
        with a have c: "collect_use_cases search_tool ucs [] s = (Inr m, s')"
          by (simp add: resource_collection_agent_def)
        show ?thesis
        proof
          fix k
          from collect_use_cases_map [OF c, of k]
          show "map_of m k =
             map_option (\<lambda>found. add_items found [])
               (map_of (rev (visits search_tool ucs s)) k)"
            by (simp split: option.splits)
        qed
      qed
    qed
    have each: "\<forall>(k, links)\<in>set m.
            \<exists>found. map_of (rev (visits search_tool ucs s)) k = Some found
              \<and> links = add_items found []
              \<and> distinct (map res_link links) \<and> [] \<notin> res_link ` set links
              \<and> (\<forall>r\<in>set links.
                    \<exists>i. find (\<lambda>j. item_link j = Some (res_link r)) found = Some i
                       \<and> r = resource_of i (res_link r))
              \<and> (\<forall>i\<in>set found. \<forall>l. item_link i = Some l \<and> l \<noteq> [] \<longrightarrow>
                    (\<exists>first. find (\<lambda>j. item_link j = Some l) found = Some first
                       \<and> filter (\<lambda>r. res_link r = l) links = [resource_of first l]))"
    proof (clarify)
      fix k links assume "(k, links) \<in> set m"
      with d have "map_of m k = Some links" by simp
      with mp obtain found where
        v: "map_of (rev (visits search_tool ucs s)) k = Some found"
        and l: "links = add_items found []"
        by auto
      from all_ok [of found] have "distinct (map res_link links)" "[] \<notin> res_link ` set links"
        unfolding l by (simp_all add: links_ok_def)
      with v l first [of found] one [of found]
      show "\<exists>found. map_of (rev (visits search_tool ucs s)) k = Some found
              \<and> links = add_items found []
              \<and> distinct (map res_link links) \<and> [] \<notin> res_link ` set links
              \<and> (\<forall>r\<in>set links.
                    \<exists>i. find (\<lambda>j. item_link j = Some (res_link r)) found = Some i
                       \<and> r = resource_of i (res_link r))
              \<and> (\<forall>i\<in>set found. \<forall>l. item_link i = Some l \<and> l \<noteq> [] \<longrightarrow>
                    (\<exists>first. find (\<lambda>j. item_link j = Some l) found = Some first
                       \<and> filter (\<lambda>r. res_link r = l) links = [resource_of first l]))"
        by blast
    qed
    from d mp each show "distinct (map fst m)
      \<and> (\<forall>k. map_of m k =
             map_option (\<lambda>found. add_items found [])
               (map_of (rev (visits search_tool ucs s)) k))
      \<and> (\<forall>(k, links)\<in>set m.
            \<exists>found. map_of (rev (visits search_tool ucs s)) k = Some found
              \<and> links = add_items found []
              \<and> distinct (map res_link links) \<and> [] \<notin> res_link ` set links
              \<and> (\<forall>r\<in>set links.
                    \<exists>i. find (\<lambda>j. item_link j = Some (res_link r)) found = Some i
                       \<and> r = resource_of i (res_link r))
              \<and> (\<forall>i\<in>set found. \<forall>l. item_link i = Some l \<and> l \<noteq> [] \<longrightarrow>
                    (\<exists>first. find (\<lambda>j. item_link j = Some l) found = Some first
                       \<and> filter (\<lambda>r. res_link r = l) links = [resource_of first l])))"
      by blast
  qed
  have 2: "distinct (map res_link (add_items items []))"
    and 3: "[] \<notin> res_link ` set (add_items items [])"
    using all_ok [of items] by (simp_all add: links_ok_def)
  have 4: "\<forall>r\<in>set (add_items items []).
          \<exists>i\<in>set items. item_link i = Some (res_link r) \<and> r = resource_of i (res_link r)"
  proof
    fix r assume "r \<in> set (add_items items [])"
    from add_items_first [OF ok this] obtain i where
      f: "find (\<lambda>j. item_link j = Some (res_link r)) items = Some i"
      and r: "r = resource_of i (res_link r)" by auto
    from f have "i \<in> set items" "item_link i = Some (res_link r)"
      by (auto simp: find_Some_iff)
    with r show "\<exists>i\<in>set items. item_link i = Some (res_link r) \<and> r = resource_of i (res_link r)"
      by blast
  qed
  note 5 = one [of items]
  have 6: "(\<forall>uc\<in>set ucs. \<exists>kvs. uc = JObj kvs
           \<and> (map_of kvs ''title'' = None
               \<or> (\<exists>t k. map_of kvs ''title'' = Some t \<and> key_of t = Some k))) \<longrightarrow>
        (\<exists>m s'. resource_collection_agent ucs search_tool llm_model s = (Inr m, s'))"
  proof
    assume a: "\<forall>uc\<in>set ucs. \<exists>kvs. uc = JObj kvs
           \<and> (map_of kvs ''title'' = None
               \<or> (\<exists>t k. map_of kvs ''title'' = Some t \<and> key_of t = Some k))"
    show "\<exists>m s'. resource_collection_agent ucs search_tool llm_model s = (Inr m, s')"
    proof (cases "ucs = []")
      case True
      then show ?thesis by (simp add: resource_collection_agent_def)
    next
      case False
      with collect_use_cases_total [OF a, of search_tool "[]" s] show ?thesis
        by (simp add: resource_collection_agent_def)
    qed
  qed
  from 1 2 3 4 5 6 show ?thesis by blast
qed


text \<open>Two items with one link, an item without a link, an item with an empty link, and
  a use case.\<close>

definition item_a :: search_item where
  "item_a = \<lparr>item_title = Some ''First'', item_snippet = Some ''seen first'',
             item_link = Some ''https://x.example/a''\<rparr>"

definition item_a_again :: search_item where
  "item_a_again = \<lparr>item_title = Some ''Second'', item_snippet = Some ''seen later'',
                   item_link = Some ''https://x.example/a''\<rparr>"

definition item_without_link :: search_item where
  "item_without_link = \<lparr>item_title = Some ''No link'', item_snippet = None, item_link = None\<rparr>"

definition item_empty_link :: search_item where
  "item_empty_link = \<lparr>item_title = Some ''Empty link'', item_snippet = None, item_link = Some []\<rparr>"

definition churn_use_case :: json where
  "churn_use_case = JObj [(''title'', JStr ''Churn prediction'')]"

text \<open>
  A search service that gives its answers in turn. For one use case the first query
  finds an item, an item without a link and a second item with the link of the
  first; the second query finds an item with an empty link, an item with another
  link, and the second item again.
\<close>

definition finds_in_turn :: "search_item list list search_tool" where
  "finds_in_turn query num_results w =
     (case w of [] \<Rightarrow> ([], []) | found # later \<Rightarrow> (found, later))"

definition item_b :: search_item where
  "item_b = \<lparr>item_title = Some ''Other'', item_snippet = None,
             item_link = Some ''https://x.example/b''\<rparr>"

definition two_answers :: "search_item list list run" where
  "two_answers =
     \<lparr>world = [[item_a, item_without_link, item_a_again],
               [item_empty_link, item_b, item_a_again]],
      calls = []\<rparr>"

lemma churn_visits:
  "visits finds_in_turn [churn_use_case] two_answers =
     [(KStr ''Churn prediction'',
       [item_a, item_without_link, item_a_again, item_empty_link, item_b, item_a_again])]"
  by (simp add: churn_use_case_def queries_for_uc_def call_search_def finds_in_turn_def
      two_answers_def)

lemma churn_run_in_turn:
  "fst (resource_collection_agent [churn_use_case] finds_in_turn (raises ''not used'')
          two_answers) =
     Inr [(KStr ''Churn prediction'',
           [resource_of item_a ''https://x.example/a'',
            resource_of item_b ''https://x.example/b''])]"
  by (simp add: resource_collection_agent_def churn_use_case_def queries_for_uc_def
      call_search_def finds_in_turn_def two_answers_def add_items_def add_item_def
      item_a_def item_a_again_def item_b_def item_without_link_def item_empty_link_def
      res_link_resource_of Let_def)

theorem resource_links_deduplicated_witness:
  "fst (resource_collection_agent [churn_use_case] finds_in_turn (raises ''not used'')
          two_answers) =
     Inr [(KStr ''Churn prediction'',
           [\<lparr>res_title = ''First'', res_link = ''https://x.example/a'',
             res_snippet = ''seen first''\<rparr>,
            \<lparr>res_title = ''Other'', res_link = ''https://x.example/b'',
             res_snippet = ''N/A''\<rparr>])]
   \<and> distinct (map res_link
        [\<lparr>res_title = ''First'', res_link = ''https://x.example/a'',
          res_snippet = ''seen first''\<rparr>,
         \<lparr>res_title = ''Other'', res_link = ''https://x.example/b'',
          res_snippet = ''N/A''\<rparr>])
   \<and> filter (\<lambda>r. res_link r = ''https://x.example/a'')
        [\<lparr>res_title = ''First'', res_link = ''https://x.example/a'',
          res_snippet = ''seen first''\<rparr>,
         \<lparr>res_title = ''Other'', res_link = ''https://x.example/b'',
          res_snippet = ''N/A''\<rparr>] =
       [\<lparr>res_title = ''First'', res_link = ''https://x.example/a'', res_snippet = ''seen first''\<rparr>]"
proof -
  let ?links = "[resource_of item_a ''https://x.example/a'',
                 resource_of item_b ''https://x.example/b'']"
  let ?found = "[item_a, item_without_link, item_a_again, item_empty_link, item_b, item_a_again]"
  obtain s' where run:
    "resource_collection_agent [churn_use_case] finds_in_turn (raises ''not used'') two_answers =
       (Inr [(KStr ''Churn prediction'', ?links)], s')"
    using churn_run_in_turn
    by (cases "resource_collection_agent [churn_use_case] finds_in_turn (raises ''not used'')
          two_answers") simp
  note t = resource_links_deduplicated [of "[churn_use_case]" finds_in_turn
      "raises ''not used''" two_answers "[(KStr ''Churn prediction'', ?links)]" s' "[]"]
  from t run obtain found where
    v: "map_of (rev (visits finds_in_turn [churn_use_case] two_answers))
          (KStr ''Churn prediction'') = Some found"
    and d: "distinct (map res_link ?links)"
    and one: "\<forall>i\<in>set found. \<forall>l. item_link i = Some l \<and> l \<noteq> [] \<longrightarrow>
                (\<exists>first. find (\<lambda>j. item_link j = Some l) found = Some first
                   \<and> filter (\<lambda>r. res_link r = l) ?links = [resource_of first l])"
    by auto
  from v have found: "found = ?found"
    unfolding churn_visits by simp
  have i: "item_a_again \<in> set ?found"
    "item_link item_a_again = Some ''https://x.example/a''"
    by (simp_all add: item_a_again_def)
  from one i obtain first where
    f: "find (\<lambda>j. item_link j = Some ''https://x.example/a'') ?found = Some first"
    "filter (\<lambda>r. res_link r = ''https://x.example/a'') ?links =
       [resource_of first ''https://x.example/a'']"
    unfolding found by fastforce
  from f(1) have "first = item_a"
    by (simp add: item_a_def)
  with f(2) d churn_run_in_turn show ?thesis
    by (simp add: resource_of_def item_a_def item_b_def)
qed

section \<open>The list of the suggestion agent\<close>

lemma generate_list_raised:
  "fst (generate_content llm_model prompt s) = Inl e \<Longrightarrow>
   fst (generate_list llm_model prompt s) = []"
  by (cases "generate_content llm_model prompt s") (simp add: generate_list_def)

lemma generate_list_answered:
  "fst (generate_content llm_model prompt s) = Inr answer \<Longrightarrow>
   fst (generate_list llm_model prompt s) = extract_list (py_strip answer)"
  by (cases "generate_content llm_model prompt s") (simp add: generate_list_def)

text \<open>A text that does not parse and has no opening bracket gives no list.\<close>

lemma extract_list_unparseable:
  "json_loads str = None \<Longrightarrow> CHR ''['' \<notin> set (clean_fences str) \<Longrightarrow> extract_list str = []"
  by (simp add: extract_list_def py_find_def Let_def)

lemma insufficient_False_Some: "insufficient profile = Inr False \<Longrightarrow> \<exists>d. profile = Some d"
  by (cases profile) (simp_all add: insufficient_def)

text \<open>
  The suggestion agent is called at one place (line 435), after the use case agent has
  returned with the same profile: there the two fields of the prompt can be joined.
\<close>

lemma use_case_agent_returned:
  assumes "use_case_generation_agent (Some d) search_tool llm_model s = (Inr ucs, s')"
    and "insufficient (Some d) = Inr False"
  shows "\<exists>offerings focus_areas.
     joined_field d ''offerings'' ''various products/services'' = Inr offerings
     \<and> joined_field d ''strategic_focus'' ''improving operations and customer experience''
         = Inr focus_areas"
  using assms
  by (auto simp: use_case_generation_agent_def Let_def split: sum.splits prod.splits)

text \<open>
  When the gate holds, \<open>optional_genai_proposer_agent\<close> returns the empty list, without
  the fallback and without a call. When the gate passes and the prompt can be built
  (the fields \<open>offerings\<close> and \<open>strategic_focus\<close> are lists of strings, as the data
  model has them, or are not lists: the agent's one call site guarantees it,
  \<open>use_case_agent_returned\<close>), the agent returns a list of length at least 1 whatever
  the generator does with the prompt: if the generator raises, the list is the one
  fallback suggestion; if it answers, the list is the extracted list when that is not
  empty and the one fallback suggestion when it is empty, as for a text that cannot
  be parsed.
\<close>

lemma suggestions_when_joinable:
  "(insufficient profile = Inr True \<longrightarrow>
      optional_genai_proposer_agent profile llm_model s = (Inr [], s))
   \<and> (profile = Some d \<and> insufficient profile = Inr False
       \<and> joined_field d ''offerings'' ''various products/services'' = Inr offerings
       \<and> joined_field d ''strategic_focus'' ''improving operations and customer experience''
           = Inr focus_areas
       \<and> prompt = proposer_prompt (get_or d ''input_name'' (JStr ''The company''))
            (get_or d ''industry'' (JStr ''a general industry''))
            (get_or d ''segment'' (get_or d ''industry'' (JStr ''a general industry'')))
            offerings focus_areas \<longrightarrow>
       (\<exists>suggestions. optional_genai_proposer_agent profile llm_model s =
            (Inr suggestions, snd (generate_content llm_model prompt s))
          \<and> 1 \<le> length suggestions
          \<and> (\<forall>e. fst (generate_content llm_model prompt s) = Inl e \<longrightarrow>
                suggestions = [fallback_suggestion])
          \<and> (\<forall>answer. fst (generate_content llm_model prompt s) = Inr answer \<longrightarrow>
                suggestions = (if extract_list (py_strip answer) = [] then [fallback_suggestion]
                               else extract_list (py_strip answer)))))"
proof (intro conjI impI)
  assume "insufficient profile = Inr True"
  then show "optional_genai_proposer_agent profile llm_model s = (Inr [], s)"
    by (simp add: optional_genai_proposer_agent_def)
next
  assume a: "profile = Some d \<and> insufficient profile = Inr False
       \<and> joined_field d ''offerings'' ''various products/services'' = Inr offerings
       \<and> joined_field d ''strategic_focus'' ''improving operations and customer experience''
           = Inr focus_areas
       \<and> prompt = proposer_prompt (get_or d ''input_name'' (JStr ''The company''))
            (get_or d ''industry'' (JStr ''a general industry''))
            (get_or d ''segment'' (get_or d ''industry'' (JStr ''a general industry'')))
            offerings focus_areas"
  define generated where "generated = fst (generate_list llm_model prompt s)"
  define suggestions where
    "suggestions = (if generated = [] then [fallback_suggestion] else generated)"
  have s2: "snd (generate_list llm_model prompt s) = snd (generate_content llm_model prompt s)"
    by (cases "generate_content llm_model prompt s") (auto simp: generate_list_def split: sum.splits)
  from a have p: "profile = Some d" and g: "insufficient (Some d) = Inr False"
    and o: "joined_field d ''offerings'' ''various products/services'' = Inr offerings"
    and f: "joined_field d ''strategic_focus'' ''improving operations and customer experience''
           = Inr focus_areas"
    and pr: "proposer_prompt (get_or d ''input_name'' (JStr ''The company''))
            (get_or d ''industry'' (JStr ''a general industry''))
            (get_or d ''segment'' (get_or d ''industry'' (JStr ''a general industry'')))
            offerings focus_areas = prompt"
    by auto
  obtain xs s1 where gl: "generate_list llm_model prompt s = (xs, s1)"
    by (cases "generate_list llm_model prompt s")
  with s2 have s1: "s1 = snd (generate_content llm_model prompt s)" by simp
  from gl have xs: "xs = generated" by (simp add: generated_def)
  have run: "optional_genai_proposer_agent profile llm_model s =
      (Inr suggestions, snd (generate_content llm_model prompt s))"
    unfolding optional_genai_proposer_agent_def p
    by (simp add: g o f pr gl Let_def suggestions_def xs s1 [symmetric])
  have len: "1 \<le> length suggestions"
    by (cases generated) (simp_all add: suggestions_def)
  have raised: "\<forall>e. fst (generate_content llm_model prompt s) = Inl e \<longrightarrow>
      suggestions = [fallback_suggestion]"
    using generate_list_raised [of llm_model prompt s]
    by (simp add: suggestions_def generated_def)
  have answered: "\<forall>answer. fst (generate_content llm_model prompt s) = Inr answer \<longrightarrow>
      suggestions = (if extract_list (py_strip answer) = [] then [fallback_suggestion]
                     else extract_list (py_strip answer))"
    using generate_list_answered [of llm_model prompt s]
    by (simp add: suggestions_def generated_def)
  from run len raised answered
  show "\<exists>suggestions. optional_genai_proposer_agent profile llm_model s =
            (Inr suggestions, snd (generate_content llm_model prompt s))
          \<and> 1 \<le> length suggestions
          \<and> (\<forall>e. fst (generate_content llm_model prompt s) = Inl e \<longrightarrow>
                suggestions = [fallback_suggestion])
          \<and> (\<forall>answer. fst (generate_content llm_model prompt s) = Inr answer \<longrightarrow>
                suggestions = (if extract_list (py_strip answer) = [] then [fallback_suggestion]
                               else extract_list (py_strip answer)))"
    by blast
qed

text \<open>A profile that passes the gate, a generator that raises, and one whose answer is
  not JSON.\<close>

definition tech_profile :: pydict where
  "tech_profile =
     [(KStr ''input_name'', JStr ''Acme''), (KStr ''industry'', JStr ''Tech''),
      (KStr ''segment'', JStr ''Tools''), (KStr ''offerings'', JArr [JStr ''anvils'']),
      (KStr ''strategic_focus'', JNull), (KStr ''search_results'', JArr [])]"

definition refusal :: string where
  "refusal = ''I cannot help with that.''"

lemma tech_profile_passes: "insufficient (Some tech_profile) = Inr False"
  by (simp add: insufficient_def tech_profile_def contains_Error_def startswith_def)

lemma tech_profile_fields:
  "joined_field tech_profile ''offerings'' ''various products/services'' = Inr ''anvils''"
  "joined_field tech_profile ''strategic_focus'' ''improving operations and customer experience''
     = Inr ''improving operations and customer experience''"
  by (simp_all add: joined_field_def tech_profile_def py_join_def)

lemma refusal_no_list: "extract_list (py_strip refusal) = []"
  by (simp add: refusal_def extract_list_unparseable string_eval json_eval)

lemma suggestions_when_joinable_example:
  "fst (optional_genai_proposer_agent (Some tech_profile) (raises ''quota exceeded'') start) =
     Inr [fallback_suggestion]
   \<and> fst (optional_genai_proposer_agent (Some tech_profile) (answers refusal) start) =
     Inr [fallback_suggestion]
   \<and> optional_genai_proposer_agent (Some [(KStr ''industry'', JStr ''N/A'')]) silent start =
     (Inr [], start)"
proof -
  have na: "insufficient (Some [(KStr ''industry'', JStr ''N/A'')]) = Inr True"
    by (simp add: insufficient_def)
  have r: "fst (generate_content (raises ''quota exceeded'') prompt start) =
      Inl (GenerationError ''quota exceeded'')" for prompt
    by (simp add: generate_content_def raises_def)
  have a: "fst (generate_content (answers refusal) prompt start) = Inr refusal" for prompt
    by (simp add: answers_generate)
  from suggestions_when_joinable [of "Some tech_profile" "raises ''quota exceeded''" start
      tech_profile "''anvils''" "''improving operations and customer experience''"]
    tech_profile_passes tech_profile_fields r
  have 1: "fst (optional_genai_proposer_agent (Some tech_profile) (raises ''quota exceeded'') start) =
     Inr [fallback_suggestion]"
    by auto
  from suggestions_when_joinable [of "Some tech_profile" "answers refusal" start
      tech_profile "''anvils''" "''improving operations and customer experience''"]
    tech_profile_passes tech_profile_fields a refusal_no_list
  have 2: "fst (optional_genai_proposer_agent (Some tech_profile) (answers refusal) start) =
     Inr [fallback_suggestion]"
    by auto
  from suggestions_when_joinable [of "Some [(KStr ''industry'', JStr ''N/A'')]" silent start] na
  have 3: "optional_genai_proposer_agent (Some [(KStr ''industry'', JStr ''N/A'')]) silent start =
     (Inr [], start)"
    by simp
  from 1 2 3 show ?thesis by blast
qed


text \<open>Whatever the profile holds: a list returned after the gate has passed is not
  empty, and so are the suggestions of every bundle with the status \<^verbatim>\<open>Success\<close>.\<close>

lemma proposer_returned_not_empty:
  assumes "insufficient profile = Inr False"
    and "optional_genai_proposer_agent profile llm_model s = (Inr suggestions, s')"
  shows "suggestions \<noteq> []"
  using assms
  by (auto simp: optional_genai_proposer_agent_def Let_def fallback_suggestion_def
      split: sum.splits prod.splits if_splits)

lemma success_has_suggestions:
  assumes "orchestrator name search_tool llm_model s = (Inr b, s')"
    and "status b = ''Success''"
  shows "genai_suggestions b \<noteq> []"
proof -
  obtain profile s1 where ra: "research_agent name search_tool llm_model s = (profile, s1)"
    by (cases "research_agent name search_tool llm_model s")
  show ?thesis
  proof (cases "insufficient profile")
    case (Inl e)
    with ra assms show ?thesis by (simp add: orchestrator_def)
  next
    case (Inr failed)
    show ?thesis
    proof (cases failed)
      case True
      with Inr ra assms show ?thesis by (auto simp: orchestrator_def)
    next
      case False
      with Inr have g: "insufficient profile = Inr False" by simp
      with ra assms(1) obtain ucs s2 links s3 suggestions where
        "optional_genai_proposer_agent profile llm_model s3 = (Inr suggestions, s')"
        "genai_suggestions b = suggestions"
        by (auto simp: orchestrator_def split: sum.splits prod.splits)
      with proposer_returned_not_empty [OF g] show ?thesis by simp
    qed
  qed
qed






section \<open>The trend text of the use case prompt\<close>

lemma generate_content_calls:
  "calls (snd (generate_content llm_model prompt s)) = calls s @ [Generate prompt]"
  by (cases "llm_model prompt (world s)") (simp add: generate_content_def)

lemma generate_list_calls:
  "calls (snd (generate_list llm_model prompt s)) = calls s @ [Generate prompt]"
  using generate_content_calls [of llm_model prompt s]
  by (cases "generate_content llm_model prompt s") (auto simp: generate_list_def split: sum.splits)

lemma use_case_agent_calls:
  assumes "insufficient (Some d) = Inr False"
    and "joined_field d ''offerings'' ''various products/services'' = Inr offerings"
    and "joined_field d ''strategic_focus'' ''improving operations and customer experience''
           = Inr focus_areas"
    and "industry = get_or d ''industry'' (JStr ''a general industry'')"
    and "segment = get_or d ''segment'' industry"
    and "trend_search search_tool (trend_queries industry segment) [] s = (snippets, s1)"
  shows "calls (snd (use_case_generation_agent (Some d) search_tool llm_model s)) =
     calls s1 @ [Generate (use_case_prompt (get_or d ''input_name'' (JStr ''The company''))
        industry segment offerings focus_areas (snippets @ hypothetical_insights industry))]"
proof -
  let ?prompt = "use_case_prompt (get_or d ''input_name'' (JStr ''The company''))
        industry segment offerings focus_areas (snippets @ hypothetical_insights industry)"
  obtain ucs s2 where g: "generate_list llm_model ?prompt s1 = (ucs, s2)"
    by (cases "generate_list llm_model ?prompt s1")
  with generate_list_calls [of llm_model ?prompt s1]
  have c: "calls s2 = calls s1 @ [Generate ?prompt]" by simp
  from assms(4,5) have i: "get_or d ''industry'' (JStr ''a general industry'') = industry"
    and sg: "get_or d ''segment'' industry = segment" by simp_all
  have "use_case_generation_agent (Some d) search_tool llm_model s = (Inr ucs, s2)"
    unfolding use_case_generation_agent_def
    by (simp add: assms(1,2,3,6) i sg g Let_def)
  with c show ?thesis by simp
qed

lemma take_all_append: "length xs + length ys \<le> n \<Longrightarrow> take n (xs @ ys) = xs @ ys"
  by simp

lemma take_first_only: "n \<le> length xs \<Longrightarrow> take n (xs @ ys) = take n xs"
  by simp

lemma sublist_prepend: "sublist xs ys \<Longrightarrow> sublist xs (zs @ ys)"
  by (metis append.assoc sublist_def)

lemma sublist_here: "sublist xs ((ss @ xs) @ rest)"
  by (metis append.assoc sublist_def)

lemma prompt_holds_block:
  assumes "length snippets + length (hypothetical_insights industry) \<le> 7000"
  shows "sublist (hypothetical_insights industry)
     (use_case_prompt company_name industry segment offerings focus_areas
        (snippets @ hypothetical_insights industry))"
proof -
  have t: "take 7000 (snippets @ hypothetical_insights industry) =
      snippets @ hypothetical_insights industry"
    using assms by simp
  show ?thesis
    unfolding use_case_prompt_def t
    by (rule sublist_here | rule sublist_prepend)+
qed

lemma prompt_without_block:
  assumes "7000 \<le> length snippets"
  shows "use_case_prompt company_name industry segment offerings focus_areas
        (snippets @ hypothetical_insights industry) =
     use_case_prompt company_name industry segment offerings focus_areas snippets"
  using assms by (simp add: use_case_prompt_def)


text \<open>A search whose one item has a snippet of 7000 characters.\<close>

definition long_item :: search_item where
  "long_item = \<lparr>item_title = None, item_snippet = Some (replicate 7000 (CHR ''x'')),
                item_link = None\<rparr>"

lemma tech_profile_gets:
  "get_or tech_profile ''industry'' (JStr ''a general industry'') = JStr ''Tech''"
  "get_or tech_profile ''segment'' (JStr ''Tech'') = JStr ''Tools''"
  "get_or tech_profile ''input_name'' (JStr ''The company'') = JStr ''Acme''"
  by (simp_all add: get_or_def tech_profile_def)

lemma length_trend_queries: "length (trend_queries industry segment) = 4"
  by (simp add: trend_queries_def)

lemma finds_trend_run:
  "trend_search (finds items) (trend_queries (JStr ''Tech'') (JStr ''Tools'')) [] start =
     (concat (map format_item (concat (replicate 4 items))),
      \<lparr>world = (), calls = map (\<lambda>q. Search q 3) (trend_queries (JStr ''Tech'') (JStr ''Tools''))\<rparr>)"
  by (simp add: finds_trend_search length_trend_queries start_def)

lemma concat_replicate_4: "concat (replicate 4 xs) = xs @ xs @ xs @ xs"
  by (simp add: numeral_eq_Suc)

lemma long_text_length:
  "7000 \<le> length (concat (map format_item (concat (replicate 4 [long_item]))))"
  by (simp add: concat_replicate_4 format_item_def long_item_def)

lemma percent_in_block: "CHR ''%'' \<in> set (hypothetical_insights industry)"
  by (simp add: hypothetical_insights_def)

lemma percent_not_in_long_text:
  "CHR ''%'' \<notin> set (concat (map format_item (concat (replicate 4 [long_item]))))"
  by (simp add: concat_replicate_4 format_item_def long_item_def nl_def)

lemma percent_not_in_prompt:
  "CHR ''%'' \<notin> set (use_case_prompt (JStr ''Acme'') (JStr ''Tech'') (JStr ''Tools'') ''anvils''
       ''improving operations and customer experience''
       (concat (map format_item (concat (replicate 4 [long_item])))))"
proof -
  have "CHR ''%'' \<notin> set (take 7000 (concat (map format_item (concat (replicate 4 [long_item])))))"
    using percent_not_in_long_text by (metis in_set_takeD)
  then show ?thesis
    by (simp add: use_case_prompt_def py_str_def nl_def)
qed

text \<open>
  Claim C6 says that the fixed block of insights is in the trend text of the prompt
  however long the search results are. It is not: the block is appended to the search
  text (line 197) and the prompt takes the first 7000 characters of the whole (line
  208). With a snippet of 7000 characters the prompt that the agent sends to the
  generator does not hold the block.
\<close>

theorem long_results_cut_block:
  "calls (snd (use_case_generation_agent (Some tech_profile) (finds [long_item]) silent start)) =
     map (\<lambda>q. Search q 3) (trend_queries (JStr ''Tech'') (JStr ''Tools'')) @
     [Generate (use_case_prompt (JStr ''Acme'') (JStr ''Tech'') (JStr ''Tools'') ''anvils''
        ''improving operations and customer experience''
        (concat (map format_item (concat (replicate 4 [long_item]))) @
         hypothetical_insights (JStr ''Tech'')))]
   \<and> \<not> sublist (hypothetical_insights (JStr ''Tech''))
        (use_case_prompt (JStr ''Acme'') (JStr ''Tech'') (JStr ''Tools'') ''anvils''
           ''improving operations and customer experience''
           (concat (map format_item (concat (replicate 4 [long_item]))) @
            hypothetical_insights (JStr ''Tech'')))"
proof
  show "calls (snd (use_case_generation_agent (Some tech_profile) (finds [long_item]) silent start)) =
     map (\<lambda>q. Search q 3) (trend_queries (JStr ''Tech'') (JStr ''Tools'')) @
     [Generate (use_case_prompt (JStr ''Acme'') (JStr ''Tech'') (JStr ''Tools'') ''anvils''
        ''improving operations and customer experience''
        (concat (map format_item (concat (replicate 4 [long_item]))) @
         hypothetical_insights (JStr ''Tech'')))]"
    using use_case_agent_calls [OF tech_profile_passes tech_profile_fields
        tech_profile_gets(1) [symmetric] tech_profile_gets(2) [symmetric] finds_trend_run,
        of "[long_item]" silent]
    by (simp add: tech_profile_gets)
next
  have "\<not> set (hypothetical_insights (JStr ''Tech'')) \<subseteq>
      set (use_case_prompt (JStr ''Acme'') (JStr ''Tech'') (JStr ''Tools'') ''anvils''
           ''improving operations and customer experience''
           (concat (map format_item (concat (replicate 4 [long_item])))))"
    using percent_in_block percent_not_in_prompt by blast
  then have "\<not> sublist (hypothetical_insights (JStr ''Tech''))
      (use_case_prompt (JStr ''Acme'') (JStr ''Tech'') (JStr ''Tools'') ''anvils''
           ''improving operations and customer experience''
           (concat (map format_item (concat (replicate 4 [long_item])))))"
    using set_mono_sublist by blast
  then show "\<not> sublist (hypothetical_insights (JStr ''Tech''))
        (use_case_prompt (JStr ''Acme'') (JStr ''Tech'') (JStr ''Tools'') ''anvils''
           ''improving operations and customer experience''
           (concat (map format_item (concat (replicate 4 [long_item]))) @
            hypothetical_insights (JStr ''Tech'')))"
    unfolding prompt_without_block [OF long_text_length] .
qed

text \<open>
  Claim C6, amended. When the gate passes and the prompt can be built, the prompt that
  \<open>use_case_generation_agent\<close> sends to the generator is made of the text of the trend
  searches with the fixed block appended, cut to its first 7000 characters (line 208).
  So the block is in the prompt whenever the search text and the block together have
  at most 7000 characters; when the search text alone has 7000 characters or more,
  the prompt is the same as if no block had been appended.
\<close>

theorem block_present_when_text_short:
  assumes "insufficient (Some d) = Inr False"
    and "joined_field d ''offerings'' ''various products/services'' = Inr offerings"
    and "joined_field d ''strategic_focus'' ''improving operations and customer experience''
           = Inr focus_areas"
    and "industry = get_or d ''industry'' (JStr ''a general industry'')"
    and "segment = get_or d ''segment'' industry"
    and "trend_search search_tool (trend_queries industry segment) [] s = (snippets, s1)"
  shows "\<exists>prompt.
       calls (snd (use_case_generation_agent (Some d) search_tool llm_model s)) =
         calls s1 @ [Generate prompt]
     \<and> prompt = use_case_prompt (get_or d ''input_name'' (JStr ''The company''))
         industry segment offerings focus_areas (snippets @ hypothetical_insights industry)
     \<and> (length snippets + length (hypothetical_insights industry) \<le> 7000 \<longrightarrow>
          sublist (hypothetical_insights industry) prompt)
     \<and> (7000 \<le> length snippets \<longrightarrow>
          prompt = use_case_prompt (get_or d ''input_name'' (JStr ''The company''))
            industry segment offerings focus_areas snippets)"
  using use_case_agent_calls [OF assms] prompt_holds_block prompt_without_block
  by blast

lemma short_text_length:
  "length (concat (map format_item (concat (replicate 4 [one_item])))) +
     length (hypothetical_insights (JStr ''Tech'')) \<le> 7000"
  by (simp add: concat_replicate_4 format_item_def one_item_def hypothetical_insights_def
      py_str_def nl_def)

theorem block_present_when_text_short_witness:
  "sublist (hypothetical_insights (JStr ''Tech''))
     (use_case_prompt (JStr ''Acme'') (JStr ''Tech'') (JStr ''Tools'') ''anvils''
        ''improving operations and customer experience''
        (concat (map format_item (concat (replicate 4 [one_item]))) @
         hypothetical_insights (JStr ''Tech'')))
   \<and> calls (snd (use_case_generation_agent (Some tech_profile) (finds [one_item]) silent start)) =
       map (\<lambda>q. Search q 3) (trend_queries (JStr ''Tech'') (JStr ''Tools'')) @
       [Generate (use_case_prompt (JStr ''Acme'') (JStr ''Tech'') (JStr ''Tools'') ''anvils''
          ''improving operations and customer experience''
          (concat (map format_item (concat (replicate 4 [one_item]))) @
           hypothetical_insights (JStr ''Tech'')))]
   \<and> use_case_prompt (JStr ''Acme'') (JStr ''Tech'') (JStr ''Tools'') ''anvils''
        ''improving operations and customer experience''
        (concat (map format_item (concat (replicate 4 [long_item]))) @
         hypothetical_insights (JStr ''Tech''))
     = use_case_prompt (JStr ''Acme'') (JStr ''Tech'') (JStr ''Tools'') ''anvils''
        ''improving operations and customer experience''
        (concat (map format_item (concat (replicate 4 [long_item]))))"
proof -
  note short = block_present_when_text_short [OF tech_profile_passes tech_profile_fields
        tech_profile_gets(1) [symmetric] tech_profile_gets(2) [symmetric] finds_trend_run,
        of "[one_item]" silent]
  note long = block_present_when_text_short [OF tech_profile_passes tech_profile_fields
        tech_profile_gets(1) [symmetric] tech_profile_gets(2) [symmetric] finds_trend_run,
        of "[long_item]" silent]
  from short short_text_length have 1: "sublist (hypothetical_insights (JStr ''Tech''))
     (use_case_prompt (JStr ''Acme'') (JStr ''Tech'') (JStr ''Tools'') ''anvils''
        ''improving operations and customer experience''
        (concat (map format_item (concat (replicate 4 [one_item]))) @
         hypothetical_insights (JStr ''Tech'')))"
    by (auto simp: tech_profile_gets)
  from short have 2:
    "calls (snd (use_case_generation_agent (Some tech_profile) (finds [one_item]) silent start)) =
       map (\<lambda>q. Search q 3) (trend_queries (JStr ''Tech'') (JStr ''Tools'')) @
       [Generate (use_case_prompt (JStr ''Acme'') (JStr ''Tech'') (JStr ''Tools'') ''anvils''
          ''improving operations and customer experience''
          (concat (map format_item (concat (replicate 4 [one_item]))) @
           hypothetical_insights (JStr ''Tech'')))]"
    by (auto simp: tech_profile_gets)
  from long long_text_length have 3:
    "use_case_prompt (JStr ''Acme'') (JStr ''Tech'') (JStr ''Tools'') ''anvils''
        ''improving operations and customer experience''
        (concat (map format_item (concat (replicate 4 [long_item]))) @
         hypothetical_insights (JStr ''Tech''))
     = use_case_prompt (JStr ''Acme'') (JStr ''Tech'') (JStr ''Tools'') ''anvils''
        ''improving operations and customer experience''
        (concat (map format_item (concat (replicate 4 [long_item]))))"
    by (auto simp: tech_profile_gets)
  from 1 2 3 show ?thesis by blast
qed

section \<open>The salvage of a list\<close>

lemma takeWhile_until:
  "c \<notin> set xs \<Longrightarrow> takeWhile (\<lambda>x. x \<noteq> c) (xs @ c # ys) = xs"
  by (induction xs) auto

lemma py_find_first:
  "c \<notin> set before \<Longrightarrow> py_find (before @ c # rest) c = int (length before)"
  by (simp add: py_find_def takeWhile_until)

lemma py_rfind_last:
  assumes "c \<notin> set after"
  shows "py_rfind (front @ c # after) c = int (length front)"
proof -
  from assms have "c \<notin> set (rev after)" by simp
  then have "takeWhile (\<lambda>x. x \<noteq> c) (rev after @ c # rev front) = rev after"
    by (rule takeWhile_until)
  then show ?thesis by (simp add: py_rfind_def)
qed

lemma py_slice_between:
  "py_slice (before @ c # middle @ d # after) (int (length before))
     (int (length (before @ c # middle)) + 1) = c # middle @ [d]"
proof -
  have n: "nat (int (length (before @ c # middle)) + 1) = length (before @ c # middle @ [d])"
    by simp
  have "take (length (before @ c # middle @ [d])) ((before @ c # middle @ [d]) @ after)
      = before @ c # middle @ [d]"
    by (rule append_eq_conv_conj [THEN iffD1, THEN conjunct1, symmetric, OF refl])
  then have "take (nat (int (length (before @ c # middle)) + 1)) (before @ c # middle @ d # after)
      = before @ c # middle @ [d]"
    unfolding n by simp
  then show ?thesis by (simp add: py_slice_def)
qed


lemma extract_list_salvage:
  assumes "json_loads str = None"
    and "clean_fences str = before @ CHR ''['' # middle @ CHR '']'' # after"
    and "CHR ''['' \<notin> set before" and "CHR '']'' \<notin> set after"
  shows "extract_list str =
     (case json_loads (CHR ''['' # middle @ [CHR '']'']) of
        Some v \<Rightarrow> list_or_empty v | None \<Rightarrow> [])"
proof -
  let ?c = "before @ CHR ''['' # middle @ CHR '']'' # after"
  have f: "py_find ?c (CHR ''['') = int (length before)"
    using assms(3) by (rule py_find_first)
  have "py_rfind ((before @ CHR ''['' # middle) @ CHR '']'' # after) (CHR '']'') =
      int (length (before @ CHR ''['' # middle))"
    using assms(4) by (rule py_rfind_last)
  then have r: "py_rfind ?c (CHR '']'') = int (length (before @ CHR ''['' # middle))"
    by simp
  have s: "py_slice ?c (int (length before)) (int (length (before @ CHR ''['' # middle)) + 1) =
      CHR ''['' # middle @ [CHR '']'']"
    by (rule py_slice_between)
  have g: "int (length before) \<noteq> - 1" "int (length (before @ CHR ''['' # middle)) \<noteq> - 1"
    "int (length before) < int (length (before @ CHR ''['' # middle))"
    by simp_all
  show ?thesis
    unfolding extract_list_def assms(1) assms(2) Let_def f r
    using g s by simp
qed

lemma extract_list_no_salvage:
  assumes "json_loads str = None"
    and "CHR ''['' \<notin> set (clean_fences str) \<or> CHR '']'' \<notin> set (clean_fences str)
         \<or> (\<exists>front after. clean_fences str = front @ CHR '']'' # after
               \<and> CHR ''['' \<notin> set front \<and> CHR '']'' \<notin> set after)"
  shows "extract_list str = []"
proof -
  from assms(2) consider
    (a) "CHR ''['' \<notin> set (clean_fences str)"
    | (b) "CHR '']'' \<notin> set (clean_fences str)"
    | (c) front after where "clean_fences str = front @ CHR '']'' # after"
        "CHR ''['' \<notin> set front" "CHR '']'' \<notin> set after" "CHR ''['' \<in> set (clean_fences str)"
    by blast
  then show ?thesis
  proof cases
    case a
    then show ?thesis by (simp add: extract_list_def assms(1) py_find_def Let_def)
  next
    case b
    then show ?thesis by (simp add: extract_list_def assms(1) py_rfind_def Let_def)
  next
    case c
    have r: "py_rfind (clean_fences str) (CHR '']'') = int (length front)"
      unfolding c(1) using c(3) by (rule py_rfind_last)
    have "takeWhile (\<lambda>x. x \<noteq> CHR ''['') (front @ CHR '']'' # after) =
        front @ takeWhile (\<lambda>x. x \<noteq> CHR ''['') (CHR '']'' # after)"
      using c(2) by (intro takeWhile_append2) auto
    then have "length front < length (takeWhile (\<lambda>x. x \<noteq> CHR ''['') (clean_fences str))"
      unfolding c(1) by simp
    with c(4) have "int (length front) < py_find (clean_fences str) (CHR ''['')"
      by (simp add: py_find_def)
    with r show ?thesis
      by (simp add: extract_list_def assms(1) Let_def)
  qed
qed


definition prose_answer :: string where
  "prose_answer = ''Sure! Here you go: '' @ json_dumps (JArr [JInt 1, JInt 2, JInt 3]) @
                  '' Hope that helps.''"

lemma str_int_123: "str_int 1 = ''1''" "str_int 2 = ''2''" "str_int 3 = ''3''"
  by (simp_all add: str_int_def digits.simps digit_char_def)

lemma dumps_123: "json_dumps (JArr [JInt 1, JInt 2, JInt 3]) = ''[1, 2, 3]''"
  by (simp add: str_int_123)

lemma prose_answer_text: "prose_answer = ''Sure! Here you go: [1, 2, 3] Hope that helps.''"
  unfolding prose_answer_def dumps_123 by simp

lemma prose_answer_strip: "py_strip prose_answer = prose_answer"
  by (simp add: prose_answer_text py_strip_def py_isspace_def)

lemma prose_answer_clean: "clean_fences prose_answer = prose_answer"
  by (simp add: prose_answer_text clean_fences_def py_strip_def py_isspace_def
      startswith_def endswith_def)


lemma prose_answer_unparsed: "json_loads prose_answer = None"
  by (simp add: prose_answer_text json_eval)

lemma list_123_parsed: "json_loads ''[1, 2, 3]'' = Some (JArr [JInt 1, JInt 2, JInt 3])"
  by (simp add: json_eval)


text \<open>An object inside a sentence, as the answer to the research prompt.\<close>

definition prose_object_answer :: string where
  "prose_object_answer = ''Here is the profile: {\"industry\": \"Tech\"} Hope that helps.''"

lemma prose_object_strip: "py_strip prose_object_answer = prose_object_answer"
  by (simp add: prose_object_answer_def py_strip_def py_isspace_def)

lemma prose_object_clean: "clean_fences prose_object_answer = prose_object_answer"
  by (simp add: prose_object_answer_def clean_fences_def py_strip_def py_isspace_def
      startswith_def endswith_def)

lemma prose_object_unparsed: "json_loads prose_object_answer = None"
  by (simp add: prose_object_answer_def json_eval)

lemma prose_object_inside:
  "py_slice prose_object_answer (py_find prose_object_answer (CHR ''{''))
      (py_rfind prose_object_answer (CHR ''}'') + 1) = ''{\"industry\": \"Tech\"}''"
  by (simp add: prose_object_answer_def py_slice_def py_find_def py_rfind_def)

lemma research_agent_unparsed:
  assumes "research_search search_tool (research_queries name) ([], []) s = ((results, all_text), s1)"
    and "results \<noteq> []"
    and "generate_content llm_model (research_prompt name all_text) s1 = (Inr answer, s2)"
    and "json_loads (py_strip answer) = None"
    and "json_loads (clean_fences (py_strip answer)) = None"
  shows "research_agent name search_tool llm_model s =
     (Some (default_industry (set_markers ''Extraction Failed (Parsing Error)''
        (initial_research_data name results))), s2)"
proof -
  from research_search_text_empty [OF assms(1)] assms(2) have "all_text \<noteq> []" by simp
  with assms(1,3,4,5) show ?thesis
    by (auto simp: research_agent_def research_extract_def Let_def)
qed


text \<open>
  Claim C4 says that an object embedded in surrounding prose is salvaged in object
  mode as a list is in array mode. It is not: \<open>research_agent\<close> parses the text as it is
  and once more without the fence (lines 120 and 134), and never looks for a brace.
  For the answer above the text between the first \<^verbatim>\<open>{\<close> and the last \<^verbatim>\<open>}\<close> is a JSON
  object, yet the profile gets the marker of a parsing failure.
\<close>

theorem object_in_prose_not_salvaged:
  "json_loads (py_slice (clean_fences (py_strip prose_object_answer))
       (py_find (clean_fences (py_strip prose_object_answer)) (CHR ''{''))
       (py_rfind (clean_fences (py_strip prose_object_answer)) (CHR ''}'') + 1)) =
     Some (JObj [(''industry'', JStr ''Tech'')])
   \<and> map_option (\<lambda>profile. map_of profile (KStr ''industry''))
        (fst (research_agent ''Acme'' (finds [one_item]) (answers prose_object_answer) start))
      = Some (Some (JStr ''Extraction Failed (Parsing Error)''))"
proof -
  have 1: "json_loads (py_slice (clean_fences (py_strip prose_object_answer))
       (py_find (clean_fences (py_strip prose_object_answer)) (CHR ''{''))
       (py_rfind (clean_fences (py_strip prose_object_answer)) (CHR ''}'') + 1)) =
     Some (JObj [(''industry'', JStr ''Tech'')])"
    unfolding prose_object_strip prose_object_clean prose_object_inside
    by (simp add: json_eval)
  have u: "json_loads (py_strip prose_object_answer) = None"
    "json_loads (clean_fences (py_strip prose_object_answer)) = None"
    unfolding prose_object_strip prose_object_clean by (rule prose_object_unparsed)+
  from research_agent_unparsed [OF finds_one_item_search four_items_not_empty
      answers_generate u]
  have "fst (research_agent ''Acme'' (finds [one_item]) (answers prose_object_answer) start) =
      Some (default_industry (set_markers ''Extraction Failed (Parsing Error)''
        (initial_research_data ''Acme'' (concat (replicate 4 [one_item])))))"
    by simp
  then have "map_option (\<lambda>profile. map_of profile (KStr ''industry''))
        (fst (research_agent ''Acme'' (finds [one_item]) (answers prose_object_answer) start))
      = Some (Some (JStr ''Extraction Failed (Parsing Error)''))"
    by (simp add: default_industry_def set_markers_def initial_research_data_def update_conv')
  with 1 show ?thesis by blast
qed

text \<open>
  Claim C4, amended. The third tier exists in array mode only (lines 247 to 258 and
  371 to 382). When the generator's text, stripped, does not parse as it is, the
  agents that expect a list remove the fence and look for the first \<^verbatim>\<open>[\<close> and the last
  \<^verbatim>\<open>]\<close>: when the first \<^verbatim>\<open>[\<close> comes before the last \<^verbatim>\<open>]\<close>, the text from the one to the
  other, both included, is parsed, and the result is the parsed value when that is a
  list and the empty list when it is another value or does not parse; when there is
  no \<^verbatim>\<open>[\<close>, no \<^verbatim>\<open>]\<close>, or the last \<^verbatim>\<open>]\<close> comes before the first \<^verbatim>\<open>[\<close>, the result is
  the empty list. In object mode (\<open>research_agent\<close>) the text without the fence is
  parsed whole: a value that parses is merged, and a text that does not parse gives
  the marker of a parsing failure, whatever braces it holds.
\<close>

theorem list_salvaged_from_prose:
  assumes "generate_content llm_model prompt s = (Inr answer, s')"
    and "json_loads (py_strip answer) = None"
  shows "(\<forall>before middle after.
            clean_fences (py_strip answer) = before @ CHR ''['' # middle @ CHR '']'' # after
            \<and> CHR ''['' \<notin> set before \<and> CHR '']'' \<notin> set after \<longrightarrow>
            generate_list llm_model prompt s =
              (case json_loads (CHR ''['' # middle @ [CHR '']'']) of
                 Some (JArr xs) \<Rightarrow> xs
               | _ \<Rightarrow> [], s'))
     \<and> (CHR ''['' \<notin> set (clean_fences (py_strip answer))
          \<or> CHR '']'' \<notin> set (clean_fences (py_strip answer))
          \<or> (\<exists>front after. clean_fences (py_strip answer) = front @ CHR '']'' # after
                \<and> CHR ''['' \<notin> set front \<and> CHR '']'' \<notin> set after) \<longrightarrow>
          generate_list llm_model prompt s = ([], s'))
     \<and> research_extract llm_model prompt d s =
          (case json_loads (clean_fences (py_strip answer)) of
             Some v \<Rightarrow> merge_extracted d v
           | None \<Rightarrow> set_markers ''Extraction Failed (Parsing Error)'' d, s')"
proof -
  have g: "generate_list llm_model prompt s = (extract_list (py_strip answer), s')"
    using assms(1) by (simp add: generate_list_def)
  have 1: "\<forall>before middle after.
            clean_fences (py_strip answer) = before @ CHR ''['' # middle @ CHR '']'' # after
            \<and> CHR ''['' \<notin> set before \<and> CHR '']'' \<notin> set after \<longrightarrow>
            generate_list llm_model prompt s =
              (case json_loads (CHR ''['' # middle @ [CHR '']'']) of
                 Some (JArr xs) \<Rightarrow> xs
               | _ \<Rightarrow> [], s')"
  proof (intro allI impI)
    fix before middle after
    assume a: "clean_fences (py_strip answer) = before @ CHR ''['' # middle @ CHR '']'' # after
            \<and> CHR ''['' \<notin> set before \<and> CHR '']'' \<notin> set after"
    then have "extract_list (py_strip answer) =
        (case json_loads (CHR ''['' # middle @ [CHR '']'']) of
           Some v \<Rightarrow> list_or_empty v | None \<Rightarrow> [])"
      using extract_list_salvage [OF assms(2), of before middle after] by blast
    also have "\<dots> = (case json_loads (CHR ''['' # middle @ [CHR '']'']) of
                 Some (JArr xs) \<Rightarrow> xs
               | _ \<Rightarrow> [])"
      by (simp add: list_or_empty_def split: option.splits json.splits)
    finally show "generate_list llm_model prompt s =
              (case json_loads (CHR ''['' # middle @ [CHR '']'']) of
                 Some (JArr xs) \<Rightarrow> xs
               | _ \<Rightarrow> [], s')"
      using g by simp
  qed
  have 2: "CHR ''['' \<notin> set (clean_fences (py_strip answer))
          \<or> CHR '']'' \<notin> set (clean_fences (py_strip answer))
          \<or> (\<exists>front after. clean_fences (py_strip answer) = front @ CHR '']'' # after
                \<and> CHR ''['' \<notin> set front \<and> CHR '']'' \<notin> set after) \<longrightarrow>
          generate_list llm_model prompt s = ([], s')"
    using extract_list_no_salvage [OF assms(2)] g by simp
  have 3: "research_extract llm_model prompt d s =
          (case json_loads (clean_fences (py_strip answer)) of
             Some v \<Rightarrow> merge_extracted d v
           | None \<Rightarrow> set_markers ''Extraction Failed (Parsing Error)'' d, s')"
    using assms by (simp add: research_extract_def Let_def split: option.splits)
  from 1 2 3 show ?thesis by blast
qed

text \<open>The example of the specification: the list inside the sentence is returned.\<close>

theorem list_salvaged_from_prose_witness:
  "json_loads (py_strip prose_answer) = None
   \<and> generate_list (answers prose_answer) ''prompt'' start =
       ([JInt 1, JInt 2, JInt 3], \<lparr>world = (), calls = [Generate ''prompt'']\<rparr>)
   \<and> research_extract (answers prose_answer) ''prompt'' [] start =
       (set_markers ''Extraction Failed (Parsing Error)'' [],
        \<lparr>world = (), calls = [Generate ''prompt'']\<rparr>)"
proof -
  have g: "generate_content (answers prose_answer) ''prompt'' start =
      (Inr prose_answer, \<lparr>world = (), calls = [Generate ''prompt'']\<rparr>)"
    by (simp add: answers_generate start_def)
  have u: "json_loads (py_strip prose_answer) = None"
    unfolding prose_answer_strip by (rule prose_answer_unparsed)
  have c: "clean_fences (py_strip prose_answer) =
      ''Sure! Here you go: '' @ CHR ''['' # ''1, 2, 3'' @ CHR '']'' # '' Hope that helps.''"
    by (simp only: prose_answer_strip prose_answer_clean) (simp add: prose_answer_text)
  have n: "CHR ''['' \<notin> set ''Sure! Here you go: ''" "CHR '']'' \<notin> set '' Hope that helps.''"
    by simp_all
  have p: "json_loads (CHR ''['' # ''1, 2, 3'' @ [CHR '']'']) = Some (JArr [JInt 1, JInt 2, JInt 3])"
    using list_123_parsed by simp
  have w: "json_loads (clean_fences (py_strip prose_answer)) = None"
    unfolding prose_answer_strip prose_answer_clean by (rule prose_answer_unparsed)
  note t = list_salvaged_from_prose [OF g u, of "[]"]
  from t c n have "generate_list (answers prose_answer) ''prompt'' start =
       (case json_loads (CHR ''['' # ''1, 2, 3'' @ [CHR '']'']) of
          Some (JArr xs) \<Rightarrow> xs | _ \<Rightarrow> [],
        \<lparr>world = (), calls = [Generate ''prompt'']\<rparr>)"
    by blast
  with p have 1: "generate_list (answers prose_answer) ''prompt'' start =
       ([JInt 1, JInt 2, JInt 3], \<lparr>world = (), calls = [Generate ''prompt'']\<rparr>)"
    by simp
  from t w have 2: "research_extract (answers prose_answer) ''prompt'' [] start =
       (set_markers ''Extraction Failed (Parsing Error)'' [],
        \<lparr>world = (), calls = [Generate ''prompt'']\<rparr>)"
    by simp
  from u 1 2 show ?thesis by blast
qed

section \<open>Encoding and decoding numbers\<close>
















section \<open>Encoding and decoding strings\<close>









section \<open>Encoding and decoding values\<close>






































section \<open>The round trip through the generator's text\<close>




end
